theory Spec2Isabelle
  imports Main
begin

section \<open>Strings and arrays of the host language\<close>

text \<open>
  Strings are modelled as \<^typ>\<open>string\<close>. The three characters the serializers look
  for (comma, double quote, line feed) are ASCII, so searching and replacing them acts the
  same on the byte sequence as on the program's code units.
\<close>

abbreviation comma :: char where "comma \<equiv> CHR '',''"
abbreviation dquote :: char where "dquote \<equiv> CHR 0x22"
abbreviation newline :: char where "newline \<equiv> CHR 0x0A"

text \<open>\<^verbatim>\<open>Array.prototype.join\<close> on an array of strings.\<close>

fun join :: "string \<Rightarrow> string list \<Rightarrow> string" where
  "join sep [] = []"
| "join sep [x] = x"
| "join sep (x # y # ys) = x @ sep @ join sep (y # ys)"

text \<open>
  \<^verbatim>\<open>s.replace(/c/g, r)\<close> for a one-character pattern \<open>c\<close>: every occurrence of
  \<open>c\<close> is replaced by \<open>r\<close>.
\<close>

definition replaceAll :: "char \<Rightarrow> string \<Rightarrow> string \<Rightarrow> string" where
  "replaceAll c r s = concat (map (\<lambda>x. if x = c then r else [x]) s)"

section \<open>Values of the host language\<close>

text \<open>
  What \<^verbatim>\<open>JSON.parse\<close> returns. The numeric type is left abstract as \<open>'n\<close>; the two
  things the program does with a number, testing it for truth and calling
  \<^verbatim>\<open>toString\<close>, are parameters \<open>isFalsy\<close> and \<open>toString\<close> of the functions that do
  them. An object is the list of its own entries, as the parser leaves them. A value that
  may be \<^verbatim>\<open>undefined\<close> is an option, \<open>None\<close> being \<^verbatim>\<open>undefined\<close>.
\<close>

datatype 'n json =
    JNull
  | JBool bool
  | JNum 'n
  | JStr string
  | JArr "'n json list"
  | JObj "(string \<times> 'n json) list"

type_synonym 'n jsval = "'n json option"

datatype TypeError = TypeError

text \<open>A thrown error object, by its \<^verbatim>\<open>message\<close> property.\<close>

datatype js_exn = Exn (message: "string option")

fun truthy :: "('n \<Rightarrow> bool) \<Rightarrow> 'n jsval \<Rightarrow> bool" where
  "truthy isFalsy None = False"
| "truthy isFalsy (Some JNull) = False"
| "truthy isFalsy (Some (JBool b)) = b"
| "truthy isFalsy (Some (JNum n)) = (\<not> isFalsy n)"
| "truthy isFalsy (Some (JStr s)) = (s \<noteq> [])"
| "truthy isFalsy (Some (JArr xs)) = True"
| "truthy isFalsy (Some (JObj fs)) = True"

text \<open>\<^verbatim>\<open>x || d\<close> for a default \<open>d\<close> that is a JSON value.\<close>

definition orElse :: "('n \<Rightarrow> bool) \<Rightarrow> 'n jsval \<Rightarrow> 'n json \<Rightarrow> 'n json" where
  "orElse isFalsy x d = (if truthy isFalsy x then the x else d)"

text \<open>
  Reading a property \<^verbatim>\<open>x.k\<close> of a value other than \<^verbatim>\<open>null\<close>, for the keys the
  program reads (\<^verbatim>\<open>line_items\<close>, \<^verbatim>\<open>name\<close>, \<^verbatim>\<open>year\<close>, ...): none of them is a
  built-in property of a string, a number, a boolean or an array, so only an object can
  have one. On \<^verbatim>\<open>null\<close> the read throws; the callers test for that first.
\<close>

fun property :: "'n json \<Rightarrow> string \<Rightarrow> 'n jsval" where
  "property (JObj fs) k = map_of fs k"
| "property _ k = None"

text \<open>
  \<^verbatim>\<open>(x || []).map(...)\<close> and \<^verbatim>\<open>(x || []).reduce(...)\<close>: the elements the method
  runs over. A truthy value that is not an array has no such method, and the call throws.
\<close>

definition elementsOrEmpty :: "('n \<Rightarrow> bool) \<Rightarrow> 'n jsval \<Rightarrow> TypeError + 'n json list" where
  "elementsOrEmpty isFalsy x =
    (if truthy isFalsy x
     then (case x of Some (JArr xs) \<Rightarrow> Inr xs | _ \<Rightarrow> Inl TypeError)
     else Inr [])"

text \<open>
  The conversion of a value to a string, which a computed property key \<^verbatim>\<open>acc[k]\<close>
  goes through. An array joins its elements with commas, \<^verbatim>\<open>null\<close> elements giving the
  empty string; an object gives \<^verbatim>\<open>[object Object]\<close>, unless it has an entry
  \<^verbatim>\<open>toString\<close> of its own, which is not callable and makes the conversion throw.
\<close>

fun jsToString :: "('n \<Rightarrow> string) \<Rightarrow> 'n json \<Rightarrow> TypeError + string"
  and elementStrings :: "('n \<Rightarrow> string) \<Rightarrow> 'n json list \<Rightarrow> TypeError + string list" where
  "jsToString toString JNull = Inr ''null''"
| "jsToString toString (JBool b) = Inr (if b then ''true'' else ''false'')"
| "jsToString toString (JNum n) = Inr (toString n)"
| "jsToString toString (JStr s) = Inr s"
| "jsToString toString (JArr xs) =
     (case elementStrings toString xs of Inl e \<Rightarrow> Inl e | Inr ss \<Rightarrow> Inr (join [comma] ss))"
| "jsToString toString (JObj fs) =
     (if map_of fs ''toString'' = None then Inr ''[object Object]'' else Inl TypeError)"
| "elementStrings toString [] = Inr []"
| "elementStrings toString (x # xs) =
     (case (if x = JNull then Inr [] else jsToString toString x) of
        Inl e \<Rightarrow> Inl e
      | Inr s \<Rightarrow>
          (case elementStrings toString xs of Inl e \<Rightarrow> Inl e | Inr ss \<Rightarrow> Inr (s # ss)))"

definition toPropertyKey :: "('n \<Rightarrow> string) \<Rightarrow> 'n jsval \<Rightarrow> TypeError + string" where
  "toPropertyKey toString k =
    (case k of None \<Rightarrow> Inr ''undefined'' | Some j \<Rightarrow> jsToString toString j)"

text \<open>
  \<^verbatim>\<open>Array.prototype.map\<close> and \<^verbatim>\<open>Array.prototype.reduce\<close> with a callback that may
  throw: the first exception ends the loop.
\<close>

fun traverse :: "('a \<Rightarrow> 'e + 'b) \<Rightarrow> 'a list \<Rightarrow> 'e + 'b list" where
  "traverse f [] = Inr []"
| "traverse f (x # xs) =
     (case f x of
        Inl e \<Rightarrow> Inl e
      | Inr y \<Rightarrow> (case traverse f xs of Inl e \<Rightarrow> Inl e | Inr ys \<Rightarrow> Inr (y # ys)))"

fun reduce :: "('b \<Rightarrow> 'a \<Rightarrow> 'e + 'b) \<Rightarrow> 'a list \<Rightarrow> 'b \<Rightarrow> 'e + 'b" where
  "reduce f [] acc = Inr acc"
| "reduce f (x # xs) acc =
     (case f acc x of Inl e \<Rightarrow> Inl e | Inr acc' \<Rightarrow> reduce f xs acc')"

text \<open>\<^verbatim>\<open>s.includes(sub)\<close> and \<^verbatim>\<open>s.split(c)\<close> for a one-character separator.\<close>

fun includes_str :: "string \<Rightarrow> string \<Rightarrow> bool" where
  "includes_str [] sub = (sub = [])"
| "includes_str (c # cs) sub = (take (length sub) (c # cs) = sub \<or> includes_str cs sub)"

fun split :: "char \<Rightarrow> string \<Rightarrow> string list" where
  "split sep [] = [[]]"
| "split sep (c # cs) =
     (if c = sep then [] # split sep cs
      else (case split sep cs of w # ws \<Rightarrow> (c # w) # ws | [] \<Rightarrow> [[c]]))"

text \<open>\<^verbatim>\<open>xs[i]\<close>: \<^verbatim>\<open>undefined\<close> out of range.\<close>

definition at :: "'a list \<Rightarrow> nat \<Rightarrow> 'a option" where
  "at xs i = (if i < length xs then Some (xs ! i) else None)"

section \<open>The data model (types.ts)\<close>

text \<open>
  The object that \<^verbatim>\<open>values\<close> holds is a plain object used as a dictionary: it has the
  entries of its own, and a prototype from which it inherits. The program creates it as
  \<^verbatim>\<open>{}\<close>, with the prototype \<^verbatim>\<open>Object.prototype\<close>; an assignment under the key
  \<^verbatim>\<open>__proto__\<close> can replace the prototype, by \<^verbatim>\<open>null\<close> or by the object or array
  that is assigned.
\<close>

datatype PlainPrototype = ObjectPrototype | NullPrototype

datatype 'n Prototype = Plain PlainPrototype | FromValue "'n json"

record ('v, 'p) JsObject =
  own :: "string \<rightharpoonup> 'v"
  prototype :: 'p

text \<open>
  The names of the members that every object inherits from \<^verbatim>\<open>Object.prototype\<close>. All
  are functions but \<^verbatim>\<open>__proto__\<close>, an accessor whose getter returns the prototype of
  the object and whose setter replaces it.
\<close>

definition objectPrototypeMembers :: "string list" where
  "objectPrototypeMembers =
    [''constructor'', ''__defineGetter__'', ''__defineSetter__'', ''hasOwnProperty'',
     ''__lookupGetter__'', ''__lookupSetter__'', ''isPrototypeOf'', ''propertyIsEnumerable'',
     ''toString'', ''valueOf'', ''__proto__'', ''toLocaleString'']"

text \<open>
  The assignment \<^verbatim>\<open>acc[key] = v\<close> on an object built from a response. For every key
  but \<^verbatim>\<open>__proto__\<close> it writes an entry of the object's own. For \<^verbatim>\<open>__proto__\<close> it
  writes an entry only when the object has one already or the accessor cannot be reached
  (the prototype is \<^verbatim>\<open>null\<close>, or is a parsed object with a \<^verbatim>\<open>__proto__\<close> entry of
  its own); otherwise the inherited setter runs, which writes no entry: it replaces the
  prototype when \<open>v\<close> is an object, an array or \<^verbatim>\<open>null\<close>, and does nothing for any
  other \<open>v\<close>.
\<close>

definition reachesSetter :: "'n Prototype \<Rightarrow> bool" where
  "reachesSetter p =
    (case p of
       Plain ObjectPrototype \<Rightarrow> True
     | Plain NullPrototype \<Rightarrow> False
     | FromValue (JObj fs) \<Rightarrow> map_of fs ''__proto__'' = None
     | FromValue _ \<Rightarrow> True)"

definition assign ::
  "('n jsval, 'n Prototype) JsObject \<Rightarrow> string \<Rightarrow> 'n jsval \<Rightarrow> ('n jsval, 'n Prototype) JsObject"
  where
  "assign acc key v =
    (if key = ''__proto__'' \<and> own acc key = None \<and> reachesSetter (prototype acc)
     then (case v of
             Some (JObj fs) \<Rightarrow> acc\<lparr>prototype := FromValue (JObj fs)\<rparr>
           | Some (JArr xs) \<Rightarrow> acc\<lparr>prototype := FromValue (JArr xs)\<rparr>
           | Some JNull \<Rightarrow> acc\<lparr>prototype := Plain NullPrototype\<rparr>
           | _ \<Rightarrow> acc)
     else acc\<lparr>own := (own acc)(key \<mapsto> v)\<rparr>)"

text \<open>
  What the read \<^verbatim>\<open>item.values[year]\<close> evaluates to on a \<^verbatim>\<open>values\<close> object of the
  declared type, whose entries are numbers or \<^verbatim>\<open>null\<close>: the entry of the object's own
  if it has one under the key, and otherwise what it inherits. An entry that is a number
  or \<^verbatim>\<open>null\<close> can only have made the prototype \<^verbatim>\<open>null\<close>, so the prototype of such
  an object is \<^verbatim>\<open>Object.prototype\<close> or \<^verbatim>\<open>null\<close>.
\<close>

datatype 'n looked = Undefined | Null | Number 'n | Member string

definition getValue :: "('n option, PlainPrototype) JsObject \<Rightarrow> string \<Rightarrow> 'n looked" where
  "getValue obj key =
    (case own obj key of
       Some None \<Rightarrow> Null
     | Some (Some n) \<Rightarrow> Number n
     | None \<Rightarrow>
        (case prototype obj of
           NullPrototype \<Rightarrow> Undefined
         | ObjectPrototype \<Rightarrow>
            if key \<in> set objectPrototypeMembers then Member key else Undefined))"

text \<open>
  \<^verbatim>\<open>toString()\<close> of an inherited member: of \<^verbatim>\<open>__proto__\<close>, which evaluates to
  \<^verbatim>\<open>Object.prototype\<close> itself, it is \<^verbatim>\<open>[object Object]\<close>; of a function it is the
  text the host gives for a built-in function, the parameter \<open>functionText\<close>.
\<close>

definition memberText :: "(string \<Rightarrow> string) \<Rightarrow> string \<Rightarrow> string" where
  "memberText functionText key =
    (if key = ''__proto__'' then ''[object Object]'' else functionText key)"

text \<open>
  The interfaces \<^verbatim>\<open>LineItem\<close> and \<^verbatim>\<open>FinancialData\<close>. The records are polymorphic in
  the types of their fields, since the program builds such objects from an untyped
  response: \<open>'n LineItem\<close> and \<open>'n FinancialData\<close> are the objects the interfaces declare,
  \<open>'n LineItem_any\<close> and \<open>'n FinancialData_any\<close> the objects as built at run time, whose
  fields hold whatever the response held. In the entries of a \<open>'n LineItem\<close>, \<open>None\<close>
  is \<^verbatim>\<open>null\<close> and \<open>Some v\<close> the number \<open>v\<close>.
\<close>

record ('s, 'o) LineItem_of =
  name :: 's
  standardized_name :: 's
  "values" :: 'o

type_synonym 'n LineItem = "(string, ('n option, PlainPrototype) JsObject) LineItem_of"
type_synonym 'n LineItem_any = "('n jsval, ('n jsval, 'n Prototype) JsObject) LineItem_of"

datatype Completeness = Complete | Partial | Not_Found

record ('c, 'u, 'y, 'l, 'k) FinancialData_of =
  company_name :: 'c
  currency :: 'u
  units :: 'u
  years :: 'y
  line_items :: "'l list"
  missing_line_items :: 'y
  completeness :: 'k

type_synonym 'n FinancialData =
  "(string, string option, string list, 'n LineItem, Completeness) FinancialData_of"
type_synonym 'n FinancialData_any =
  "('n json, 'n json, 'n json, 'n LineItem_any, 'n json) FinancialData_of"

datatype AppStatus = IDLE | UPLOADING | PROCESSING | SUCCESS | ERROR

section \<open>The extraction service (services/geminiService.ts)\<close>

text \<open>
  \<^verbatim>\<open>transformRawApiResponse\<close>. Reading \<^verbatim>\<open>raw.line_items\<close>, \<^verbatim>\<open>item.name\<close> and
  \<^verbatim>\<open>v.year\<close> throws on \<^verbatim>\<open>null\<close>; the line items are built before the other fields
  are read. The accumulator of \<^verbatim>\<open>reduce\<close> starts as the plain object \<^verbatim>\<open>{}\<close>.
\<close>

definition transformRawApiResponse ::
  "('n \<Rightarrow> bool) \<Rightarrow> ('n \<Rightarrow> string) \<Rightarrow> 'n json \<Rightarrow> TypeError + 'n FinancialData_any" where
  "transformRawApiResponse isFalsy toString raw =
    (if raw = JNull then Inl TypeError
     else
       case elementsOrEmpty isFalsy (property raw ''line_items'') of
         Inl e \<Rightarrow> Inl e
       | Inr items \<Rightarrow>
          (case traverse (\<lambda>item.
                  if item = JNull then Inl TypeError
                  else
                    case elementsOrEmpty isFalsy (property item ''yearly_values'') of
                      Inl e \<Rightarrow> Inl e
                    | Inr yearly_values \<Rightarrow>
                       (case reduce (\<lambda>acc v.
                               if v = JNull then Inl TypeError
                               else
                                 case toPropertyKey toString (property v ''year'') of
                                   Inl e \<Rightarrow> Inl e
                                 | Inr key \<Rightarrow> Inr (assign acc key (property v ''value'')))
                             yearly_values
                             \<lparr>own = Map.empty, prototype = Plain ObjectPrototype\<rparr> of
                          Inl e \<Rightarrow> Inl e
                        | Inr acc \<Rightarrow>
                            Inr \<lparr>name = property item ''name'',
                                 standardized_name = property item ''standardized_name'',
                                 values = acc\<rparr>))
                items of
             Inl e \<Rightarrow> Inl e
           | Inr lineItems \<Rightarrow>
               Inr \<lparr>company_name =
                      orElse isFalsy (property raw ''company_name'') (JStr ''Unknown Entity''),
                    currency = orElse isFalsy (property raw ''currency'') JNull,
                    units = orElse isFalsy (property raw ''units'') JNull,
                    years = orElse isFalsy (property raw ''years'') (JArr []),
                    line_items = lineItems,
                    missing_line_items =
                      orElse isFalsy (property raw ''missing_line_items'') (JArr []),
                    completeness =
                      orElse isFalsy (property raw ''completeness'') (JStr ''Not Found'')\<rparr>))"

text \<open>
  \<^verbatim>\<open>extractFinancialData\<close>. The call of the external model either rejects with an error
  or gives a response whose \<^verbatim>\<open>text\<close> is a string or \<^verbatim>\<open>undefined\<close>: that outcome is
  the argument \<open>response\<close>. \<^verbatim>\<open>JSON.parse\<close> is the parameter \<open>parse\<close>, \<open>None\<close> being its
  \<^verbatim>\<open>SyntaxError\<close>. The rejection of the awaited call is not caught; the \<^verbatim>\<open>try\<close> block
  covers the parser and the transform.
\<close>

definition extractFinancialData ::
  "(string \<Rightarrow> 'n json option) \<Rightarrow> ('n \<Rightarrow> bool) \<Rightarrow> ('n \<Rightarrow> string) \<Rightarrow>
   js_exn + string option \<Rightarrow> js_exn + 'n FinancialData_any" where
  "extractFinancialData parse isFalsy toString response =
    (case response of
       Inl err \<Rightarrow> Inl err
     | Inr rawText \<Rightarrow>
        if rawText = None \<or> rawText = Some []
        then Inl (Exn (Some ''The extraction engine returned an empty response.''))
        else
          (case parse (the rawText) of
             None \<Rightarrow>
               Inl (Exn (Some
                 ''The document was processed, but the data structure was unrecognizable.''))
           | Some data \<Rightarrow>
              (case transformRawApiResponse isFalsy toString data of
                 Inl error \<Rightarrow>
                   Inl (Exn (Some
                     ''The document was processed, but the data structure was unrecognizable.''))
               | Inr result \<Rightarrow> Inr result)))"

section \<open>The CSV serializers (utils/csvUtils)\<close>

text \<open>
  \<^verbatim>\<open>convertToWideCSV\<close>. The test \<^verbatim>\<open>!data.line_items\<close> cannot succeed on a value of
  type \<^verbatim>\<open>FinancialData\<close>, which leaves the test for the empty array.
  \<^verbatim>\<open>cell.toString()\<close> on a string is the string. \<^verbatim>\<open>val.toString()\<close> is the
  parameter \<open>toString\<close> on a number and \<^const>\<open>memberText\<close> on an inherited member.
\<close>

definition convertToWideCSV ::
  "('n \<Rightarrow> string) \<Rightarrow> (string \<Rightarrow> string) \<Rightarrow> 'n FinancialData \<Rightarrow> string" where
  "convertToWideCSV toString functionText data =
    (if line_items data = [] then ''''
     else
       let headers = [''Line Item (Original)'', ''Standardized Name''] @ years data;
           rows = map (\<lambda>item.
                    let periodValues = map (\<lambda>year.
                          case getValue (values item) year of
                            Null \<Rightarrow> ''''
                          | Undefined \<Rightarrow> ''''
                          | Number val \<Rightarrow> replaceAll comma '''' (toString val)
                          | Member val \<Rightarrow>
                              replaceAll comma '''' (memberText functionText val))
                        (years data)
                    in [name item, standardized_name item] @ periodValues)
                  (line_items data)
       in join [newline]
            (map (\<lambda>row. join [comma]
                    (map (\<lambda>cell.
                            let cellStr = cell
                            in if comma \<in> set cellStr \<or> dquote \<in> set cellStr
                                    \<or> newline \<in> set cellStr
                               then [dquote] @ replaceAll dquote [dquote, dquote] cellStr
                                    @ [dquote]
                               else cellStr)
                       row))
               (headers # rows)))"

text \<open>
  \<^verbatim>\<open>convertToLongCSV\<close>. The three nested \<^verbatim>\<open>forEach\<close> loops push onto \<open>rows\<close>;
  each loop is a \<^const>\<open>fold\<close> that threads the array.
\<close>

definition convertToLongCSV ::
  "('n \<Rightarrow> string) \<Rightarrow> (string \<Rightarrow> string) \<Rightarrow> 'n FinancialData list \<Rightarrow> string" where
  "convertToLongCSV toString functionText dataList =
    (if length dataList = 0 then ''''
     else
       let headers = [''Source / Company'', ''Line Item (Original)'', ''Standardized Name'',
                      ''Period'', ''Value''];
           rows = fold (\<lambda>data rows.
                    fold (\<lambda>item rows.
                      fold (\<lambda>year rows.
                        let displayVal =
                              (case getValue (values item) year of
                                 Null \<Rightarrow> ''''
                               | Undefined \<Rightarrow> ''''
                               | Number val \<Rightarrow> replaceAll comma '''' (toString val)
                               | Member val \<Rightarrow>
                                   replaceAll comma '''' (memberText functionText val))
                        in rows @ [[company_name data, name item, standardized_name item,
                                    year, displayVal]])
                        (years data) rows)
                      (line_items data) rows)
                    dataList []
       in join [newline]
            (map (\<lambda>row. join [comma]
                    (map (\<lambda>cell.
                            let cellStr = cell
                            in if comma \<in> set cellStr \<or> dquote \<in> set cellStr
                                    \<or> newline \<in> set cellStr
                               then [dquote] @ replaceAll dquote [dquote, dquote] cellStr
                                    @ [dquote]
                               else cellStr)
                       row))
               (headers # rows)))"

section \<open>The application component (App.tsx)\<close>

text \<open>
  The status of a queue entry, \<^verbatim>\<open>'uploading' | 'processing' | 'done' | 'error'\<close>, and
  the interfaces \<^verbatim>\<open>FileState\<close> and \<^verbatim>\<open>ExtractionResult\<close>.
\<close>

datatype FileStatus = Uploading | Processing | Done | Error

record FileState =
  fs_name :: string
  fs_status :: FileStatus

record 'n ExtractionResult =
  fileName :: string
  data :: "'n FinancialData_any"

text \<open>
  A selected file, with what the outside world will do with it: \<open>reader_result\<close> is the
  data URL the \<^verbatim>\<open>FileReader\<close> delivers to \<^verbatim>\<open>onload\<close>, or \<open>None\<close> when
  \<^verbatim>\<open>onerror\<close> fires instead; \<open>model_response\<close> is how the call of the external model
  for this file settles.
\<close>

record Upload =
  file_name :: string
  file_type :: string
  reader_result :: "string option"
  model_response :: "js_exn + string option"

text \<open>
  The state of the component. \<open>extractCalls\<close> is not a state variable of the program: it
  logs the arguments of every call of \<^verbatim>\<open>extractFinancialData\<close>, in the order of the
  calls. \<^verbatim>\<open>processingMessage\<close>, which only the time estimate and its timer write, is
  left out.
\<close>

record 'n AppState =
  status :: AppStatus
  results :: "'n ExtractionResult list"
  error :: "string option"
  queue :: "FileState list"
  isKeyConfigured :: bool
  extractCalls :: "(string option \<times> string) list"

text \<open>
  The updater \<^verbatim>\<open>prev => prev.map(f => f.name === file.name ? { ...f, status } : f)\<close>.
\<close>

definition setFileStatus :: "string \<Rightarrow> FileStatus \<Rightarrow> FileState list \<Rightarrow> FileState list" where
  "setFileStatus n st prev = map (\<lambda>f. if fs_name f = n then f\<lparr>fs_status := st\<rparr> else f) prev"

text \<open>
  The callbacks of \<^verbatim>\<open>processSingleFile\<close>, each of which runs without interruption:
  \<open>OnLoad\<close> is \<^verbatim>\<open>reader.onload\<close> up to its \<^verbatim>\<open>await\<close>, \<open>Fulfilled\<close> the rest of the
  \<^verbatim>\<open>try\<close> block once the extraction has returned, \<open>Caught\<close> the \<^verbatim>\<open>catch\<close> block
  with the error thrown, \<open>OnError\<close> is \<^verbatim>\<open>reader.onerror\<close>.
\<close>

datatype Event =
    OnLoad Upload string
  | Fulfilled Upload
  | Caught Upload js_exn
  | OnError Upload

fun callback :: "Event \<Rightarrow> 'n AppState \<Rightarrow> 'n AppState" where
  "callback (OnLoad file url) s =
     (let base64 = at (split comma url) 1
      in s\<lparr>queue := setFileStatus (file_name file) Processing (queue s),
            extractCalls := extractCalls s @ [(base64, file_type file)]\<rparr>)"
| "callback (Fulfilled file) s =
     s\<lparr>queue := setFileStatus (file_name file) Done (queue s)\<rparr>"
| "callback (Caught file err) s =
     (let errorMsg = (case message err of None \<Rightarrow> [] | Some m \<Rightarrow> if m = [] then [] else m);
          s' = (if includes_str errorMsg ''API key not valid''
                   \<or> includes_str errorMsg ''Requested entity was not found''
                then s\<lparr>isKeyConfigured := False,
                       error := Some ''Authentication failed. Please re-configure your API key.''\<rparr>
                else s)
      in s'\<lparr>queue := setFileStatus (file_name file) Error (queue s')\<rparr>)"
| "callback (OnError file) s =
     s\<lparr>queue := setFileStatus (file_name file) Error (queue s)\<rparr>"

text \<open>
  \<^verbatim>\<open>processSingleFile\<close>: the callbacks that will run for the file, in their order, and
  the value its promise resolves to.
\<close>

definition processSingleFile ::
  "(string \<Rightarrow> 'n json option) \<Rightarrow> ('n \<Rightarrow> bool) \<Rightarrow> ('n \<Rightarrow> string) \<Rightarrow> Upload \<Rightarrow>
   Event list \<times> 'n ExtractionResult option" where
  "processSingleFile parse isFalsy toString file =
    (case reader_result file of
       None \<Rightarrow> ([OnError file], None)
     | Some url \<Rightarrow>
        (case extractFinancialData parse isFalsy toString (model_response file) of
           Inr result \<Rightarrow>
             ([OnLoad file url, Fulfilled file],
              Some \<lparr>fileName = file_name file, data = result\<rparr>)
         | Inl err \<Rightarrow> ([OnLoad file url, Caught file err], None)))"

text \<open>
  The callbacks of the files of a batch run one at a time in some order that keeps the
  order of each file's own: \<open>interleaving tss es\<close> says that \<open>es\<close> is such an order of
  the lists \<open>tss\<close>.
\<close>

fun interleaving :: "'a list list \<Rightarrow> 'a list \<Rightarrow> bool" where
  "interleaving tss [] = list_all (\<lambda>ts. ts = []) tss"
| "interleaving tss (e # es) =
     list_ex (\<lambda>i. tss ! i \<noteq> [] \<and> hd (tss ! i) = e \<and> interleaving (tss[i := tl (tss ! i)]) es)
       [0 ..< length tss]"

text \<open>
  \<^verbatim>\<open>handleFileUpload\<close>, in its two halves around \<^verbatim>\<open>await Promise.all\<close>.
  \<open>enqueue\<close> is the part that runs at once, for the files that passed the filter.
  \<open>aggregate\<close> is the part that runs when every promise has resolved; \<open>error0\<close> is the
  value of \<^verbatim>\<open>error\<close> that the handler closed over, the one of the state it was
  called in.
\<close>

definition enqueue :: "Upload list \<Rightarrow> 'n AppState \<Rightarrow> 'n AppState" where
  "enqueue fileList s =
    (let newQueueItems = map (\<lambda>f. \<lparr>fs_name = file_name f, fs_status = Uploading\<rparr>) fileList
     in s\<lparr>status := PROCESSING, error := None, queue := queue s @ newQueueItems\<rparr>)"

definition aggregate ::
  "'n ExtractionResult option list \<Rightarrow> string option \<Rightarrow> 'n AppState \<Rightarrow> 'n AppState" where
  "aggregate settledResults error0 s =
    (let validResults = map the (filter (\<lambda>r. r \<noteq> None) settledResults)
     in if length validResults > 0
        then s\<lparr>results := results s @ validResults, status := SUCCESS\<rparr>
        else if error0 = None \<or> error0 = Some []
             then s\<lparr>status := ERROR, error := Some ''The documents could not be processed.''\<rparr>
             else s\<lparr>status := ERROR\<rparr>)"

text \<open>
  \<open>schedule\<close> is the order in which the callbacks of the batch run. No other handler of
  the component runs in between.
\<close>

definition handleFileUpload ::
  "(string \<Rightarrow> 'n json option) \<Rightarrow> ('n \<Rightarrow> bool) \<Rightarrow> ('n \<Rightarrow> string) \<Rightarrow> Event list \<Rightarrow>
   Upload list \<Rightarrow> 'n AppState \<Rightarrow> 'n AppState" where
  "handleFileUpload parse isFalsy toString schedule files s =
    (if length files = 0 then s
     else
       let fileList = filter (\<lambda>f. file_type f = ''application/pdf'') files
       in if length fileList = 0
          then s\<lparr>error := Some ''Please select one or more PDF documents.''\<rparr>
          else
            let extractionPromises = map (processSingleFile parse isFalsy toString) fileList;
                settledResults = map snd extractionPromises
            in aggregate settledResults (error s)
                 (fold callback schedule (enqueue fileList s)))"

text \<open>The callbacks of a batch, and the order that finishes each file before the next.\<close>

definition batchCallbacks ::
  "(string \<Rightarrow> 'n json option) \<Rightarrow> ('n \<Rightarrow> bool) \<Rightarrow> ('n \<Rightarrow> string) \<Rightarrow> Upload list \<Rightarrow>
   Event list list" where
  "batchCallbacks parse isFalsy toString files =
    map (\<lambda>f. fst (processSingleFile parse isFalsy toString f))
      (filter (\<lambda>f. file_type f = ''application/pdf'') files)"

definition inOrder ::
  "(string \<Rightarrow> 'n json option) \<Rightarrow> ('n \<Rightarrow> bool) \<Rightarrow> ('n \<Rightarrow> string) \<Rightarrow> Upload list \<Rightarrow>
   Event list" where
  "inOrder parse isFalsy toString files = concat (batchCallbacks parse isFalsy toString files)"

section \<open>What the claims say\<close>

subsection \<open>About the serializers\<close>

text \<open>
  The escaping rule in the claim's words: a cell that contains a comma, a double quote or a
  newline is wrapped in double quotes with every inner double quote doubled; any other cell
  is emitted as it is.
\<close>

definition csv_quote_rule :: "string \<Rightarrow> string" where
  "csv_quote_rule cell =
    (if comma \<in> set cell \<or> dquote \<in> set cell \<or> newline \<in> set cell
     then dquote # concat (map (\<lambda>c. if c = dquote then [dquote, dquote] else [c]) cell)
          @ [dquote]
     else cell)"

text \<open>
  The text of a table: fields escaped by the rule and separated by commas, rows separated
  by newlines.
\<close>

definition csv_render :: "string list list \<Rightarrow> string" where
  "csv_render table = join [newline] (map (\<lambda>row. join [comma] (map csv_quote_rule row)) table)"

text \<open>
  The serialized value of an item for a year: what \<^verbatim>\<open>item.values[year]\<close> evaluates to,
  blank when that is \<^verbatim>\<open>null\<close> or \<^verbatim>\<open>undefined\<close>, and otherwise its \<^verbatim>\<open>toString\<close>
  with the commas removed.
\<close>

definition csv_cell_value ::
  "('n \<Rightarrow> string) \<Rightarrow> (string \<Rightarrow> string) \<Rightarrow> 'n LineItem \<Rightarrow> string \<Rightarrow> string" where
  "csv_cell_value toString functionText item year =
    (case getValue (values item) year of
       Undefined \<Rightarrow> ''''
     | Null \<Rightarrow> ''''
     | Number n \<Rightarrow> filter (\<lambda>c. c \<noteq> comma) (toString n)
     | Member k \<Rightarrow> filter (\<lambda>c. c \<noteq> comma) (memberText functionText k))"

text \<open>
  The cell in the words of the claim about missing values: blank when the item's map holds
  null for the year or has no entry for it, and otherwise the \<^verbatim>\<open>toString\<close> of the number
  with the commas removed.
\<close>

definition blank_when_missing :: "('n \<Rightarrow> string) \<Rightarrow> 'n LineItem \<Rightarrow> string \<Rightarrow> string" where
  "blank_when_missing toString item year =
    (case own (values item) year of
       None \<Rightarrow> ''''
     | Some None \<Rightarrow> ''''
     | Some (Some n) \<Rightarrow> filter (\<lambda>c. c \<noteq> comma) (toString n))"

definition wide_header :: "'n FinancialData \<Rightarrow> string list" where
  "wide_header fd = ''Line Item (Original)'' # ''Standardized Name'' # years fd"

definition long_header :: "string list" where
  "long_header = [''Source / Company'', ''Line Item (Original)'', ''Standardized Name'',
                  ''Period'', ''Value'']"

text \<open>The data rows of the wide format: one for each line item, one field for each year.\<close>

definition wide_rows ::
  "('n \<Rightarrow> string) \<Rightarrow> (string \<Rightarrow> string) \<Rightarrow> 'n FinancialData \<Rightarrow> string list list" where
  "wide_rows toString functionText fd =
    map (\<lambda>item. name item # standardized_name item #
                 map (\<lambda>year. csv_cell_value toString functionText item year) (years fd))
        (line_items fd)"

text \<open>The data rows of the long format: dataset by dataset, item by item, year by year.\<close>

definition long_rows ::
  "('n \<Rightarrow> string) \<Rightarrow> (string \<Rightarrow> string) \<Rightarrow> 'n FinancialData list \<Rightarrow> string list list" where
  "long_rows toString functionText dataList =
    concat (map (\<lambda>fd.
      concat (map (\<lambda>item.
        map (\<lambda>year. [company_name fd, name item, standardized_name item, year,
                      csv_cell_value toString functionText item year])
            (years fd))
        (line_items fd)))
      dataList)"

subsection \<open>About the extraction client\<close>

text \<open>
  The two failures the claim names: the text of the response is empty (or there is none),
  and the text cannot be parsed or the parsed value cannot be transformed.
\<close>

definition response_text_empty :: "js_exn + string option \<Rightarrow> bool" where
  "response_text_empty response = (response = Inr None \<or> response = Inr (Some []))"

definition response_text_unusable ::
  "(string \<Rightarrow> 'n json option) \<Rightarrow> ('n \<Rightarrow> bool) \<Rightarrow> ('n \<Rightarrow> string) \<Rightarrow>
   js_exn + string option \<Rightarrow> bool" where
  "response_text_unusable parse isFalsy toString response =
    (case response of
       Inr (Some text) \<Rightarrow>
         text \<noteq> [] \<and>
         (case parse text of
            None \<Rightarrow> True
          | Some raw \<Rightarrow> isl (transformRawApiResponse isFalsy toString raw))
     | _ \<Rightarrow> False)"

text \<open>
  A JSON object in which fields may be missing, and in which the fields that are present and
  that the normalizer walks through have the types of the response schema:
  \<open>line_items\<close> is an array of objects, the \<open>yearly_values\<close> of each is an array of
  objects, and the \<open>year\<close> of each of those is a string.
\<close>

definition entry_fields_typed :: "'n json \<Rightarrow> bool" where
  "entry_fields_typed v =
    (case v of
       JObj fs \<Rightarrow> (case map_of fs ''year'' of None \<Rightarrow> True | Some (JStr y) \<Rightarrow> True | _ \<Rightarrow> False)
     | _ \<Rightarrow> False)"

definition item_fields_typed :: "'n json \<Rightarrow> bool" where
  "item_fields_typed item =
    (case item of
       JObj fs \<Rightarrow>
         (case map_of fs ''yearly_values'' of
            None \<Rightarrow> True
          | Some (JArr vs) \<Rightarrow> list_all entry_fields_typed vs
          | _ \<Rightarrow> False)
     | _ \<Rightarrow> False)"

definition object_fields_typed :: "'n json \<Rightarrow> bool" where
  "object_fields_typed raw =
    (case raw of
       JObj fs \<Rightarrow>
         (case map_of fs ''line_items'' of
            None \<Rightarrow> True
          | Some (JArr items) \<Rightarrow> list_all item_fields_typed items
          | _ \<Rightarrow> False)
     | _ \<Rightarrow> False)"

subsection \<open>About the queue\<close>

text \<open>
  The steps the claim allows a status to take, and what it means for a queue to have moved
  only forward: the entries are the same files, and each status is as it was or has taken
  one allowed step.
\<close>

fun forward :: "FileStatus \<Rightarrow> FileStatus \<Rightarrow> bool" where
  "forward Uploading Processing = True"
| "forward Uploading Error = True"
| "forward Processing Done = True"
| "forward Processing Error = True"
| "forward _ _ = False"

definition moved_forward :: "FileState list \<Rightarrow> FileState list \<Rightarrow> bool" where
  "moved_forward q q' \<longleftrightarrow>
     length q' = length q
     \<and> (\<forall>i<length q.
           fs_name (q' ! i) = fs_name (q ! i)
           \<and> (fs_status (q' ! i) = fs_status (q ! i)
                \<or> forward (fs_status (q ! i)) (fs_status (q' ! i))))"

section \<open>Auxiliary definitions\<close>

text \<open>
  The two callbacks of \<^verbatim>\<open>transformRawApiResponse\<close> by name: the one that
  \<^verbatim>\<open>reduce\<close> runs over the entries of \<^verbatim>\<open>yearly_values\<close>, and the one that
  \<^verbatim>\<open>map\<close> runs over the line items.
\<close>

definition yearly_step ::
  "('n \<Rightarrow> string) \<Rightarrow> ('n jsval, 'n Prototype) JsObject \<Rightarrow> 'n json \<Rightarrow>
   TypeError + ('n jsval, 'n Prototype) JsObject" where
  "yearly_step toString acc v =
    (if v = JNull then Inl TypeError
     else
       case toPropertyKey toString (property v ''year'') of
         Inl e \<Rightarrow> Inl e
       | Inr key \<Rightarrow> Inr (assign acc key (property v ''value'')))"

definition line_item_of ::
  "('n \<Rightarrow> bool) \<Rightarrow> ('n \<Rightarrow> string) \<Rightarrow> 'n json \<Rightarrow> TypeError + 'n LineItem_any" where
  "line_item_of isFalsy toString item =
    (if item = JNull then Inl TypeError
     else
       case elementsOrEmpty isFalsy (property item ''yearly_values'') of
         Inl e \<Rightarrow> Inl e
       | Inr yearly_values \<Rightarrow>
          (case reduce (yearly_step toString) yearly_values
                  \<lparr>own = Map.empty, prototype = Plain ObjectPrototype\<rparr> of
             Inl e \<Rightarrow> Inl e
           | Inr acc \<Rightarrow>
               Inr \<lparr>name = property item ''name'',
                    standardized_name = property item ''standardized_name'',
                    values = acc\<rparr>))"

text \<open>The callbacks that call \<^verbatim>\<open>extractFinancialData\<close>.\<close>

fun isOnLoad :: "Event \<Rightarrow> bool" where
  "isOnLoad (OnLoad file url) = True"
| "isOnLoad _ = False"

text \<open>
  For the proof that statuses move forward: the file of a callback, the callbacks a file
  has left against the status of its queue entry, and the invariant of a batch whose
  entries start at position \<open>n0\<close> of the queue.
\<close>

fun eventFile :: "Event \<Rightarrow> Upload" where
  "eventFile (OnLoad file url) = file"
| "eventFile (Fulfilled file) = file"
| "eventFile (Caught file err) = file"
| "eventFile (OnError file) = file"

text \<open>What is left for a file to run, against the status of its queue entry.\<close>

definition phase :: "Upload \<Rightarrow> Event list \<Rightarrow> FileStatus \<Rightarrow> bool" where
  "phase f ts st \<longleftrightarrow>
     (\<exists>url e. ts = [OnLoad f url, e] \<and> (e = Fulfilled f \<or> (\<exists>err. e = Caught f err))
         \<and> st = Uploading)
     \<or> (ts = [OnError f] \<and> st = Uploading)
     \<or> ((ts = [Fulfilled f] \<or> (\<exists>err. ts = [Caught f err])) \<and> st = Processing)
     \<or> (ts = [] \<and> (st = Done \<or> st = Error))"

definition tracked :: "nat \<Rightarrow> Upload list \<Rightarrow> Event list list \<Rightarrow> FileState list \<Rightarrow> bool" where
  "tracked n0 pdfs tss q \<longleftrightarrow>
     length tss = length pdfs \<and> length q = n0 + length pdfs \<and> distinct (map fs_name q)
     \<and> (\<forall>i<length pdfs.
           fs_name (q ! (n0 + i)) = file_name (pdfs ! i)
           \<and> phase (pdfs ! i) (tss ! i) (fs_status (q ! (n0 + i))))"

section \<open>Example inputs\<close>

text \<open>
  A dataset of two line items over two years, with natural numbers for the numeric type, a
  \<^verbatim>\<open>toString\<close> that is made to put a comma in one of its results, and the text that
  browsers give for a built-in function.
\<close>

definition example_item1 :: "nat LineItem" where
  "example_item1 =
    \<lparr>name = ''Revenue, net'', standardized_name = ''Revenue from Operations'',
     values = \<lparr>own = [''2024'' \<mapsto> Some 1250, ''2023'' \<mapsto> None],
               prototype = ObjectPrototype\<rparr>\<rparr>"

definition example_item2 :: "nat LineItem" where
  "example_item2 =
    \<lparr>name = ''PAT'', standardized_name = ''Profit After Tax'',
     values = \<lparr>own = [''2024'' \<mapsto> Some 7], prototype = ObjectPrototype\<rparr>\<rparr>"

definition example_data :: "nat FinancialData" where
  "example_data =
    \<lparr>company_name = ''Acme'', currency = None, units = None,
     years = [''2024'', ''2023''], line_items = [example_item1, example_item2],
     missing_line_items = [], completeness = Complete\<rparr>"

definition example_toString :: "nat \<Rightarrow> string" where
  "example_toString n = (if n = 7 then ''7'' else ''1,250'')"

definition example_functionText :: "string \<Rightarrow> string" where
  "example_functionText key =
    ''function '' @ (if key = ''constructor'' then ''Object'' else key) @ ''() { [native code] }''"

text \<open>
  A dataset whose only year label is \<^verbatim>\<open>constructor\<close>, and whose only line item has no
  entry at all.
\<close>

definition example_inherited :: "nat FinancialData" where
  "example_inherited =
    \<lparr>company_name = ''Acme'', currency = None, units = None,
     years = [''constructor''],
     line_items = [\<lparr>name = ''PAT'', standardized_name = ''Profit After Tax'',
                    values = \<lparr>own = Map.empty, prototype = ObjectPrototype\<rparr>\<rparr>],
     missing_line_items = [], completeness = Partial\<rparr>"

text \<open>A response for the examples, with a year that occurs twice.\<close>

definition example_raw :: "nat json" where
  "example_raw =
    JObj [(''company_name'', JStr ''Acme''),
          (''years'', JArr [JStr ''2024'', JStr ''2023'']),
          (''line_items'', JArr [
             JObj [(''name'', JStr ''Revenue''),
                   (''standardized_name'', JStr ''Revenue from Operations''),
                   (''yearly_values'', JArr [
                      JObj [(''year'', JStr ''2024''), (''value'', JNum 10)],
                      JObj [(''year'', JStr ''2023''), (''value'', JNull)],
                      JObj [(''year'', JStr ''2024''), (''value'', JNum 12)]])],
             JObj [(''name'', JStr ''PAT'')]])]"

text \<open>A response with an entry for the year label \<^verbatim>\<open>__proto__\<close>.\<close>

definition example_proto_raw :: "nat json" where
  "example_proto_raw =
    JObj [(''line_items'', JArr [
             JObj [(''name'', JStr ''Revenue''),
                   (''standardized_name'', JStr ''Revenue from Operations''),
                   (''yearly_values'', JArr [
                      JObj [(''year'', JStr ''__proto__''), (''value'', JNum 5)],
                      JObj [(''year'', JStr ''2024''), (''value'', JNum 10)]])]])]"

definition example_isFalsy :: "nat \<Rightarrow> bool" where
  "example_isFalsy n = (n = 0)"

text \<open>A parser for the examples, which knows three texts.\<close>

definition example_parse :: "string \<Rightarrow> nat json option" where
  "example_parse text =
    (if text = ''{}'' then Some (JObj [])
     else if text = ''null'' then Some JNull
     else if text = ''{\"line_items\":[{}]}'' then Some (JObj [(''line_items'', JArr [JObj []])])
     else None)"

text \<open>
  Files for the examples: one that is read and extracted, one that is not a PDF, one whose
  model call is rejected for the API key, one that cannot be read, and one whose response
  is not JSON; and the state of the component when it is mounted.
\<close>

definition example_upload :: Upload where
  "example_upload =
    \<lparr>file_name = ''report.pdf'', file_type = ''application/pdf'',
     reader_result = Some ''data:application/pdf;base64,JVBERi0x'',
     model_response = Inr (Some ''{}'')\<rparr>"

definition example_notes :: Upload where
  "example_notes =
    \<lparr>file_name = ''notes.txt'', file_type = ''text/plain'',
     reader_result = Some ''data:text/plain;base64,aGk='',
     model_response = Inr (Some ''{}'')\<rparr>"

definition example_denied :: Upload where
  "example_denied =
    \<lparr>file_name = ''annual.pdf'', file_type = ''application/pdf'',
     reader_result = Some ''data:application/pdf;base64,JVBERi0y'',
     model_response = Inl (Exn (Some ''[400] API key not valid. Please pass a valid API key.''))\<rparr>"

definition example_unreadable :: Upload where
  "example_unreadable =
    \<lparr>file_name = ''broken.pdf'', file_type = ''application/pdf'',
     reader_result = None,
     model_response = Inr (Some ''{}'')\<rparr>"

definition example_garbled :: Upload where
  "example_garbled =
    \<lparr>file_name = ''scan.pdf'', file_type = ''application/pdf'',
     reader_result = Some ''data:application/pdf;base64,JVBERi0z'',
     model_response = Inr (Some ''not json'')\<rparr>"

definition initialState :: "nat AppState" where
  "initialState =
    \<lparr>status = IDLE, results = [], error = None, queue = [], isKeyConfigured = True,
     extractCalls = []\<rparr>"

text \<open>
  The state in the middle of a batch of four files, of which two have been read: their
  entries are \<open>Processing\<close>, the other two \<open>Uploading\<close>.
\<close>

definition example_midway :: "nat AppState" where
  "example_midway =
    callback (OnLoad example_garbled ''data:application/pdf;base64,JVBERi0z'')
      (callback (OnLoad example_denied ''data:application/pdf;base64,JVBERi0y'')
         (enqueue [example_upload, example_denied, example_garbled, example_unreadable]
            initialState))"

section \<open>Properties of the serializers\<close>

lemma replaceAll_empty: "replaceAll c [] s = filter (\<lambda>x. x \<noteq> c) s"
  by (induction s) (simp_all add: replaceAll_def)

lemma cell_case_eq:
  "(case getValue (values item) year of
      Null \<Rightarrow> ''''
    | Undefined \<Rightarrow> ''''
    | Number val \<Rightarrow> replaceAll comma '''' (toString val)
    | Member val \<Rightarrow> replaceAll comma '''' (memberText functionText val))
   = csv_cell_value toString functionText item year"
  by (simp add: csv_cell_value_def replaceAll_empty split: looked.splits)

lemma escape_lambda_eq:
  "(\<lambda>cell. if comma \<in> set cell \<or> dquote \<in> set cell \<or> newline \<in> set cell
           then [dquote] @ replaceAll dquote [dquote, dquote] cell @ [dquote]
           else cell) = csv_quote_rule"
  by (rule ext) (simp add: csv_quote_rule_def replaceAll_def)

lemma fold_push:
  "fold (\<lambda>x acc. acc @ [f x]) xs acc = acc @ map f xs"
  by (induction xs arbitrary: acc) simp_all

lemma fold_push_concat:
  "fold (\<lambda>x acc. acc @ f x) xs acc = acc @ concat (map f xs)"
  by (induction xs arbitrary: acc) simp_all

lemma wide_unfold:
  "line_items fd \<noteq> [] \<Longrightarrow>
   convertToWideCSV toString functionText fd = csv_render (wide_header fd # wide_rows toString functionText fd)"
  unfolding convertToWideCSV_def csv_render_def wide_header_def wide_rows_def Let_def
    escape_lambda_eq cell_case_eq
  by simp

lemma long_unfold:
  "dataList \<noteq> [] \<Longrightarrow>
   convertToLongCSV toString functionText dataList = csv_render (long_header # long_rows toString functionText dataList)"
  unfolding convertToLongCSV_def csv_render_def long_header_def long_rows_def Let_def
    escape_lambda_eq cell_case_eq fold_push fold_push_concat
  by simp

lemma nth_concat_offset:
  "k < length xss \<Longrightarrow> m < length (xss ! k) \<Longrightarrow>
   concat xss ! (sum_list (map length (take k xss)) + m) = xss ! k ! m"
proof (induction xss arbitrary: k)
  case Nil
  then show ?case by simp
next
  case (Cons xs xss)
  show ?case
  proof (cases k)
    case 0
    with Cons.prems show ?thesis by (simp add: nth_append)
  next
    case (Suc k')
    with Cons.prems have "concat xss ! (sum_list (map length (take k' xss)) + m) = xss ! k' ! m"
      by (intro Cons.IH) simp_all
    with Suc show ?thesis by (simp add: nth_append add.assoc)
  qed
qed

lemma nth_concat_uniform:
  "j < length xs \<Longrightarrow> i < n \<Longrightarrow> (\<And>x. length (f x) = n) \<Longrightarrow>
   concat (map f xs) ! (j * n + i) = f (xs ! j) ! i"
proof (induction xs arbitrary: j)
  case Nil
  then show ?case by simp
next
  case (Cons x xs)
  show ?case
  proof (cases j)
    case 0
    with Cons.prems show ?thesis by (simp add: nth_append)
  next
    case (Suc j')
    with Cons.prems have "concat (map f xs) ! (j' * n + i) = f (xs ! j') ! i"
      by (intro Cons.IH) simp_all
    with Suc Cons.prems(3) show ?thesis by (simp add: nth_append add.assoc)
  qed
qed

lemma length_concat_uniform:
  "(\<And>x. length (f x) = n) \<Longrightarrow> length (concat (map f xs)) = length xs * n"
  by (induction xs) simp_all


lemma long_rows_nth:
  assumes k: "k < length dataList"
    and j: "j < length (line_items (dataList ! k))"
    and i: "i < length (years (dataList ! k))"
  shows "long_rows toString functionText dataList !
           (sum_list (map (\<lambda>d. length (line_items d) * length (years d)) (take k dataList))
            + (j * length (years (dataList ! k)) + i))
         = [company_name (dataList ! k), name (line_items (dataList ! k) ! j),
            standardized_name (line_items (dataList ! k) ! j), years (dataList ! k) ! i,
            csv_cell_value toString functionText (line_items (dataList ! k) ! j) (years (dataList ! k) ! i)]"
proof -
  define block where "block = (\<lambda>d::'a FinancialData.
      concat (map (\<lambda>item.
        map (\<lambda>year. [company_name d, name item, standardized_name item, year,
                      csv_cell_value toString functionText item year])
            (years d))
        (line_items d)))"
  have rows: "long_rows toString functionText dataList = concat (map block dataList)"
    by (simp add: long_rows_def block_def)
  have len: "length (block d) = length (line_items d) * length (years d)" for d
    unfolding block_def by (rule length_concat_uniform) simp
  have inblock: "block (dataList ! k) ! (j * length (years (dataList ! k)) + i)
       = [company_name (dataList ! k), name (line_items (dataList ! k) ! j),
            standardized_name (line_items (dataList ! k) ! j), years (dataList ! k) ! i,
            csv_cell_value toString functionText (line_items (dataList ! k) ! j) (years (dataList ! k) ! i)]"
    unfolding block_def using j i by (subst nth_concat_uniform) simp_all
  have "j * length (years (dataList ! k)) + i
        < length (line_items (dataList ! k)) * length (years (dataList ! k))"
  proof -
    have "j * length (years (dataList ! k)) + i < Suc j * length (years (dataList ! k))"
      using i by simp
    also have "\<dots> \<le> length (line_items (dataList ! k)) * length (years (dataList ! k))"
      using j by (intro mult_le_mono1) simp
    finally show ?thesis .
  qed
  then have m: "j * length (years (dataList ! k)) + i < length (map block dataList ! k)"
    using k by (simp add: len)
  have "concat (map block dataList) !
          (sum_list (map length (take k (map block dataList)))
           + (j * length (years (dataList ! k)) + i))
        = map block dataList ! k ! (j * length (years (dataList ! k)) + i)"
    using k m by (intro nth_concat_offset) simp_all
  moreover have "map length (take k (map block dataList))
        = map (\<lambda>d. length (line_items d) * length (years d)) (take k dataList)"
    by (simp add: take_map len)
  ultimately show ?thesis using rows inblock k by simp
qed

subsection \<open>The long format\<close>



subsection \<open>The wide format\<close>



subsection \<open>Escaping\<close>

text \<open>
  Claim C9. Both serializers escape every cell by the same rule: a cell that contains a
  comma, a double quote or a newline is put between double quotes with each of its double
  quotes doubled, and any other cell is emitted as it is. The serialized value of a number
  contains no comma, so that only a double quote or a newline in it would make the rule
  quote it.
\<close>

theorem csv_cells_escaped_alike:
  "convertToWideCSV toString functionText fd =
     (if line_items fd = [] then []
      else join [newline] (map (\<lambda>row. join [comma] (map csv_quote_rule row))
                             (wide_header fd # wide_rows toString functionText fd)))
   \<and> convertToLongCSV toString functionText dataList =
     (if dataList = [] then []
      else join [newline] (map (\<lambda>row. join [comma] (map csv_quote_rule row))
                             (long_header # long_rows toString functionText dataList)))
   \<and> csv_quote_rule cell =
     (if comma \<in> set cell \<or> dquote \<in> set cell \<or> newline \<in> set cell
      then [dquote] @ concat (map (\<lambda>c. if c = dquote then [dquote, dquote] else [c]) cell)
           @ [dquote]
      else cell)
   \<and> comma \<notin> set (csv_cell_value toString functionText item year)
   \<and> csv_quote_rule (csv_cell_value toString functionText item year) =
     (if dquote \<in> set (csv_cell_value toString functionText item year)
         \<or> newline \<in> set (csv_cell_value toString functionText item year)
      then [dquote] @ concat (map (\<lambda>c. if c = dquote then [dquote, dquote] else [c])
                                 (csv_cell_value toString functionText item year)) @ [dquote]
      else csv_cell_value toString functionText item year)"
proof -
  have a: "convertToWideCSV toString functionText fd =
     (if line_items fd = [] then []
      else join [newline] (map (\<lambda>row. join [comma] (map csv_quote_rule row))
                             (wide_header fd # wide_rows toString functionText fd)))"
  proof (cases "line_items fd = []")
    case True
    then show ?thesis by (simp add: convertToWideCSV_def)
  next
    case False
    then show ?thesis using wide_unfold [OF False, of toString functionText] by (simp add: csv_render_def)
  qed
  have b: "convertToLongCSV toString functionText dataList =
     (if dataList = [] then []
      else join [newline] (map (\<lambda>row. join [comma] (map csv_quote_rule row))
                             (long_header # long_rows toString functionText dataList)))"
  proof (cases "dataList = []")
    case True
    then show ?thesis by (simp add: convertToLongCSV_def)
  next
    case False
    then show ?thesis using long_unfold [OF False, of toString functionText] by (simp add: csv_render_def)
  qed
  have c: "comma \<notin> set (csv_cell_value toString functionText item year)"
    by (simp add: csv_cell_value_def split: looked.splits)
  have d: "csv_quote_rule s =
     (if comma \<in> set s \<or> dquote \<in> set s \<or> newline \<in> set s
      then [dquote] @ concat (map (\<lambda>c. if c = dquote then [dquote, dquote] else [c]) s)
           @ [dquote]
      else s)" for s
    by (simp add: csv_quote_rule_def)
  show ?thesis using a b c d [of cell] d [of "csv_cell_value toString functionText item year"] by simp
qed

theorem csv_cells_escaped_alike_witness:
  "convertToWideCSV example_toString example_functionText example_data =
     ''Line Item (Original),Standardized Name,2024,2023'' @ [newline]
     @ [dquote] @ ''Revenue, net'' @ [dquote] @ '',Revenue from Operations,1250,'' @ [newline]
     @ ''PAT,Profit After Tax,7,''
   \<and> convertToLongCSV example_toString example_functionText [example_data] =
     ''Source / Company,Line Item (Original),Standardized Name,Period,Value'' @ [newline]
     @ ''Acme,'' @ [dquote] @ ''Revenue, net'' @ [dquote]
     @ '',Revenue from Operations,2024,1250'' @ [newline]
     @ ''Acme,'' @ [dquote] @ ''Revenue, net'' @ [dquote]
     @ '',Revenue from Operations,2023,'' @ [newline]
     @ ''Acme,PAT,Profit After Tax,2024,7'' @ [newline]
     @ ''Acme,PAT,Profit After Tax,2023,''
   \<and> csv_quote_rule ''say \"hi\"'' = [dquote] @ ''say \"\"hi\"\"'' @ [dquote]"
proof -
  note ex = example_data_def example_item1_def example_item2_def example_toString_def
  note t = csv_cells_escaped_alike [of example_toString example_functionText example_data "[example_data]"
      "''say \"hi\"''"]
  have a: "convertToWideCSV example_toString example_functionText example_data =
     ''Line Item (Original),Standardized Name,2024,2023'' @ [newline]
     @ [dquote] @ ''Revenue, net'' @ [dquote] @ '',Revenue from Operations,1250,'' @ [newline]
     @ ''PAT,Profit After Tax,7,''"
    unfolding t [THEN conjunct1]
    by (simp add: ex wide_header_def wide_rows_def csv_cell_value_def getValue_def
        objectPrototypeMembers_def csv_quote_rule_def)
  have b: "convertToLongCSV example_toString example_functionText [example_data] =
     ''Source / Company,Line Item (Original),Standardized Name,Period,Value'' @ [newline]
     @ ''Acme,'' @ [dquote] @ ''Revenue, net'' @ [dquote]
     @ '',Revenue from Operations,2024,1250'' @ [newline]
     @ ''Acme,'' @ [dquote] @ ''Revenue, net'' @ [dquote]
     @ '',Revenue from Operations,2023,'' @ [newline]
     @ ''Acme,PAT,Profit After Tax,2024,7'' @ [newline]
     @ ''Acme,PAT,Profit After Tax,2023,''"
    unfolding t [THEN conjunct2, THEN conjunct1]
    by (simp add: ex long_header_def long_rows_def csv_cell_value_def getValue_def
        objectPrototypeMembers_def csv_quote_rule_def)
  have c: "csv_quote_rule ''say \"hi\"'' = [dquote] @ ''say \"\"hi\"\"'' @ [dquote]"
    unfolding t [THEN conjunct2, THEN conjunct2, THEN conjunct1] by simp
  from a b c show ?thesis by blast
qed

subsection \<open>Missing values\<close>

lemma wide_cell:
  assumes "j < length (line_items fd)" and "i < length (years fd)"
  shows "(wide_header fd # wide_rows toString functionText fd) ! Suc j ! (i + 2)
         = csv_cell_value toString functionText (line_items fd ! j) (years fd ! i)"
  using assms by (simp add: wide_rows_def)

text \<open>
  Where the claim about missing values holds: for a year label that is not the name of an
  inherited member, or on an object whose prototype is \<^verbatim>\<open>null\<close>, the cell of both
  formats is blank when the item has \<^verbatim>\<open>null\<close> or no entry for the year, and is otherwise
  the \<^verbatim>\<open>toString\<close> of the number with the commas removed.
\<close>

lemma csv_cell_value_own_label:
  assumes "year \<notin> set objectPrototypeMembers \<or> prototype (values item) = NullPrototype"
  shows "csv_cell_value toString functionText item year = blank_when_missing toString item year"
  using assms
  by (auto simp: csv_cell_value_def blank_when_missing_def getValue_def
      split: option.splits PlainPrototype.splits)

lemma csv_missing_values_blank_for_own_labels:
  assumes "k < length dataList"
    and "j < length (line_items (dataList ! k))"
    and "i < length (years (dataList ! k))"
    and "years (dataList ! k) ! i \<notin> set objectPrototypeMembers
         \<or> prototype (values (line_items (dataList ! k) ! j)) = NullPrototype"
  shows "(let fd = dataList ! k; item = line_items fd ! j; year = years fd ! i;
              cell = (case own (values item) year of
                        None \<Rightarrow> []
                      | Some None \<Rightarrow> []
                      | Some (Some v) \<Rightarrow> filter (\<lambda>c. c \<noteq> comma) (toString v));
              offset = sum_list (map (\<lambda>d. length (line_items d) * length (years d))
                                     (take k dataList))
          in convertToWideCSV toString functionText fd
               = csv_render (wide_header fd # wide_rows toString functionText fd)
             \<and> (wide_header fd # wide_rows toString functionText fd) ! Suc j ! (i + 2) = cell
             \<and> convertToLongCSV toString functionText dataList
                 = csv_render (long_header # long_rows toString functionText dataList)
             \<and> (long_header # long_rows toString functionText dataList)
                   ! Suc (offset + (j * length (years fd) + i))
                 = [company_name fd, name item, standardized_name item, year, cell])"
proof -
  have ne: "line_items (dataList ! k) \<noteq> []" "dataList \<noteq> []"
    using assms by auto
  have cell: "csv_cell_value toString functionText (line_items (dataList ! k) ! j)
                (years (dataList ! k) ! i)
              = (case own (values (line_items (dataList ! k) ! j)) (years (dataList ! k) ! i) of
                   None \<Rightarrow> []
                 | Some None \<Rightarrow> []
                 | Some (Some v) \<Rightarrow> filter (\<lambda>c. c \<noteq> comma) (toString v))"
    using csv_cell_value_own_label [OF assms(4), of toString functionText]
    by (simp add: blank_when_missing_def)
  show ?thesis
    unfolding Let_def cell [symmetric]
    using wide_unfold [OF ne(1), of toString functionText]
      long_unfold [OF ne(2), of toString functionText]
      wide_cell [OF assms(2,3), of toString functionText]
      long_rows_nth [OF assms(1-3), of toString functionText]
    by simp
qed

text \<open>
  An inherited member takes the place of a missing value: when the item has no entry for a
  year label that names a member of \<^verbatim>\<open>Object.prototype\<close>, and the object has that
  prototype, the cell is the text of the member.
\<close>

lemma csv_cell_value_inherited:
  assumes "own (values item) year = None" and "prototype (values item) = ObjectPrototype"
    and "year \<in> set objectPrototypeMembers"
  shows "csv_cell_value toString functionText item year
         = filter (\<lambda>c. c \<noteq> comma) (memberText functionText year)"
  using assms by (simp add: csv_cell_value_def getValue_def)

text \<open>
  Claim C10 at a year label that names an inherited member. The dataset has the one year
  label \<^verbatim>\<open>constructor\<close> and a line item with no entry at all. The cell is not blank:
  both serializers print the text of the function that every object inherits under that
  name.
\<close>

theorem missing_value_prints_inherited_member:
  "own (values (line_items example_inherited ! 0)) (years example_inherited ! 0) = None
   \<and> convertToWideCSV example_toString example_functionText example_inherited =
       ''Line Item (Original),Standardized Name,constructor'' @ [newline]
       @ ''PAT,Profit After Tax,function Object() { [native code] }''
   \<and> convertToLongCSV example_toString example_functionText [example_inherited] =
       ''Source / Company,Line Item (Original),Standardized Name,Period,Value'' @ [newline]
       @ ''Acme,PAT,Profit After Tax,constructor,function Object() { [native code] }''"
  by (simp add: convertToWideCSV_def convertToLongCSV_def example_inherited_def
      example_functionText_def getValue_def objectPrototypeMembers_def memberText_def
      replaceAll_def Let_def)

section \<open>Properties of the response normalizer\<close>

lemma transform_unfold:
  "transformRawApiResponse isFalsy toString raw =
    (if raw = JNull then Inl TypeError
     else
       case elementsOrEmpty isFalsy (property raw ''line_items'') of
         Inl e \<Rightarrow> Inl e
       | Inr items \<Rightarrow>
          (case traverse (line_item_of isFalsy toString) items of
             Inl e \<Rightarrow> Inl e
           | Inr lineItems \<Rightarrow>
               Inr \<lparr>company_name =
                      orElse isFalsy (property raw ''company_name'') (JStr ''Unknown Entity''),
                    currency = orElse isFalsy (property raw ''currency'') JNull,
                    units = orElse isFalsy (property raw ''units'') JNull,
                    years = orElse isFalsy (property raw ''years'') (JArr []),
                    line_items = lineItems,
                    missing_line_items =
                      orElse isFalsy (property raw ''missing_line_items'') (JArr []),
                    completeness =
                      orElse isFalsy (property raw ''completeness'') (JStr ''Not Found'')\<rparr>))"
proof -
  have step: "(\<lambda>acc v. if v = JNull then Inl TypeError
                 else case toPropertyKey toString (property v ''year'') of
                        Inl e \<Rightarrow> Inl e
                      | Inr key \<Rightarrow> Inr (assign acc key (property v ''value'')))
              = yearly_step toString"
    by (intro ext) (simp add: yearly_step_def)
  have item: "(\<lambda>item. if item = JNull then Inl TypeError
                 else case elementsOrEmpty isFalsy (property item ''yearly_values'') of
                        Inl e \<Rightarrow> Inl e
                      | Inr yearly_values \<Rightarrow>
                         (case reduce (yearly_step toString) yearly_values
                                 \<lparr>own = Map.empty, prototype = Plain ObjectPrototype\<rparr> of
                            Inl e \<Rightarrow> Inl e
                          | Inr acc \<Rightarrow>
                              Inr \<lparr>name = property item ''name'',
                                   standardized_name = property item ''standardized_name'',
                                   values = acc\<rparr>))
              = line_item_of isFalsy toString"
    by (intro ext) (simp add: line_item_of_def)
  show ?thesis
    unfolding transformRawApiResponse_def step item ..
qed

lemma traverse_Inr:
  "traverse f xs = Inr ys \<Longrightarrow> length ys = length xs \<and> (\<forall>j<length xs. f (xs ! j) = Inr (ys ! j))"
proof (induction xs arbitrary: ys)
  case Nil
  then show ?case by simp
next
  case (Cons x xs)
  from Cons.prems obtain y ys' where y: "f x = Inr y" and ys': "traverse f xs = Inr ys'"
    and ys: "ys = y # ys'"
    by (auto split: sum.splits)
  from Cons.IH [OF ys'] y ys show ?case
    by (auto simp: nth_Cons split: nat.splits)
qed

lemma traverse_Inl:
  "traverse f xs = Inl e \<Longrightarrow> \<exists>x\<in>set xs. f x = Inl e"
  by (induction xs) (auto split: sum.splits)

lemma traverse_all_Inr:
  "(\<And>x. x \<in> set xs \<Longrightarrow> \<exists>y. f x = Inr y) \<Longrightarrow> \<exists>ys. traverse f xs = Inr ys"
proof (induction xs)
  case Nil
  then show ?case by simp
next
  case (Cons x xs)
  then obtain y where "f x = Inr y" by fastforce
  moreover from Cons obtain ys where "traverse f xs = Inr ys" by fastforce
  ultimately show ?case by simp
qed

lemma own_assign:
  "y \<noteq> ''__proto__'' \<Longrightarrow> own (assign acc key v) y = (if key = y then Some v else own acc y)"
  by (auto simp: assign_def split: option.splits json.splits)

lemma own_yearly_step:
  assumes "yearly_step toString acc v = Inr acc'" and "y \<noteq> ''__proto__''"
  shows "own acc' y =
           (if toPropertyKey toString (property v ''year'') = Inr y
            then Some (property v ''value'') else own acc y)"
proof -
  from assms(1) obtain key where key: "toPropertyKey toString (property v ''year'') = Inr key"
    and acc': "acc' = assign acc key (property v ''value'')"
    by (auto simp: yearly_step_def split: if_splits sum.splits)
  show ?thesis unfolding acc' key by (simp add: own_assign [OF assms(2)])
qed

lemma own_assign_other:
  "key \<noteq> y \<Longrightarrow> own (assign acc key v) y = own acc y"
  by (auto simp: assign_def split: option.splits json.splits)

lemma reduce_yearly_absent:
  "reduce (yearly_step toString) vs acc = Inr m \<Longrightarrow>
   (\<forall>k<length vs. toPropertyKey toString (property (vs ! k) ''year'') \<noteq> Inr y) \<Longrightarrow>
   own m y = own acc y"
proof (induction vs arbitrary: acc)
  case Nil
  then show ?case by simp
next
  case (Cons v vs)
  from Cons.prems(1) obtain acc' where a: "yearly_step toString acc v = Inr acc'"
    and r: "reduce (yearly_step toString) vs acc' = Inr m"
    by (auto split: sum.splits)
  from Cons.prems(2) have k0: "toPropertyKey toString (property v ''year'') \<noteq> Inr y"
    and rest: "\<forall>k<length vs. toPropertyKey toString (property (vs ! k) ''year'') \<noteq> Inr y"
    by force+
  from a obtain key where key: "toPropertyKey toString (property v ''year'') = Inr key"
    and acc': "acc' = assign acc key (property v ''value'')"
    by (auto simp: yearly_step_def split: if_splits sum.splits)
  from key k0 have "key \<noteq> y" by auto
  then have "own acc' y = own acc y" unfolding acc' by (rule own_assign_other)
  with Cons.IH [OF r rest] show ?case by simp
qed

lemma reduce_yearly_last:
  "reduce (yearly_step toString) vs acc = Inr m \<Longrightarrow> y \<noteq> ''__proto__'' \<Longrightarrow>
   i < length vs \<Longrightarrow>
   toPropertyKey toString (property (vs ! i) ''year'') = Inr y \<Longrightarrow>
   (\<forall>k. i < k \<and> k < length vs \<longrightarrow> toPropertyKey toString (property (vs ! k) ''year'') \<noteq> Inr y) \<Longrightarrow>
   own m y = Some (property (vs ! i) ''value'')"
proof (induction vs arbitrary: acc i)
  case Nil
  then show ?case by simp
next
  case (Cons v vs)
  from Cons.prems(1) obtain acc' where a: "yearly_step toString acc v = Inr acc'"
    and r: "reduce (yearly_step toString) vs acc' = Inr m"
    by (auto split: sum.splits)
  show ?case
  proof (cases i)
    case 0
    with Cons.prems(4) own_yearly_step [OF a Cons.prems(2)]
    have "own acc' y = Some (property v ''value'')" by simp
    moreover from 0 Cons.prems(5)
    have "\<forall>k<length vs. toPropertyKey toString (property (vs ! k) ''year'') \<noteq> Inr y"
      by force
    ultimately show ?thesis using reduce_yearly_absent [OF r] 0 by simp
  next
    case (Suc i')
    with Cons.prems have "i' < length vs"
      and "toPropertyKey toString (property (vs ! i') ''year'') = Inr y"
      and "\<forall>k. i' < k \<and> k < length vs \<longrightarrow>
              toPropertyKey toString (property (vs ! k) ''year'') \<noteq> Inr y"
      by force+
    from Cons.IH [OF r Cons.prems(2) this] Suc show ?thesis by simp
  qed
qed

lemma line_item_of_values:
  assumes "line_item_of isFalsy toString item = Inr li"
    and "elementsOrEmpty isFalsy (property item ''yearly_values'') = Inr vs"
  shows "reduce (yearly_step toString) vs \<lparr>own = Map.empty, prototype = Plain ObjectPrototype\<rparr>
         = Inr (values li)"
proof -
  from assms obtain acc where
    r: "reduce (yearly_step toString) vs \<lparr>own = Map.empty, prototype = Plain ObjectPrototype\<rparr> = Inr acc"
    and li: "li = \<lparr>name = property item ''name'',
                    standardized_name = property item ''standardized_name'',
                    values = acc\<rparr>"
    by (auto simp: line_item_of_def split: if_splits sum.splits)
  from li have "values li = acc" by simp
  with r show ?thesis by simp
qed

text \<open>
  Where the claim about the normalizer holds: for every year label but \<^verbatim>\<open>__proto__\<close>.
  Whenever the normalizer returns, it has one line item for each element of the response's
  \<open>line_items\<close>, and the \<open>values\<close> object of the item at position \<open>j\<close> is keyed by year:
  an entry of the item's \<open>yearly_values\<close> with a year label \<open>y\<close> other than
  \<^verbatim>\<open>__proto__\<close>, after which no entry has the same key, gives \<open>y\<close> its value; a label
  that is the key of no entry has no entry in the object; and an item with no
  \<open>yearly_values\<close> gets the empty object.
\<close>

lemma transformRawApiResponse_values_except_proto:
  assumes "transformRawApiResponse isFalsy toString raw = Inr fd"
    and "property raw ''line_items'' = Some (JArr items)"
    and "j < length items"
  shows "length (line_items fd) = length items
     \<and> (\<forall>vs. property (items ! j) ''yearly_values'' = Some (JArr vs) \<longrightarrow>
          (\<forall>i<length vs. \<forall>y. property (vs ! i) ''year'' = Some (JStr y) \<longrightarrow>
              y \<noteq> ''__proto__'' \<longrightarrow>
              (\<forall>k. i < k \<and> k < length vs \<longrightarrow>
                   toPropertyKey toString (property (vs ! k) ''year'') \<noteq> Inr y) \<longrightarrow>
              own (values (line_items fd ! j)) y = Some (property (vs ! i) ''value''))
          \<and> (\<forall>y. (\<forall>k<length vs. toPropertyKey toString (property (vs ! k) ''year'') \<noteq> Inr y)
                 \<longrightarrow> own (values (line_items fd ! j)) y = None))
     \<and> (property (items ! j) ''yearly_values'' = None \<longrightarrow>
          values (line_items fd ! j) = \<lparr>own = Map.empty, prototype = Plain ObjectPrototype\<rparr>)"
proof -
  have els: "elementsOrEmpty isFalsy (property raw ''line_items'') = Inr items"
    using assms(2) by (simp add: elementsOrEmpty_def)
  from assms(1) els obtain lineItems
    where tr: "traverse (line_item_of isFalsy toString) items = Inr lineItems"
      and fd: "line_items fd = lineItems"
    unfolding transform_unfold by (auto split: if_splits sum.splits)
  from traverse_Inr [OF tr] assms(3)
  have len: "length lineItems = length items"
    and item: "line_item_of isFalsy toString (items ! j) = Inr (lineItems ! j)"
    by simp_all
  have some: "own (values (lineItems ! j)) y = Some (property (vs ! i) ''value'')"
    if vs: "property (items ! j) ''yearly_values'' = Some (JArr vs)"
      and i: "i < length vs" and y: "property (vs ! i) ''year'' = Some (JStr y)"
      and np: "y \<noteq> ''__proto__''"
      and later: "\<forall>k. i < k \<and> k < length vs \<longrightarrow>
                   toPropertyKey toString (property (vs ! k) ''year'') \<noteq> Inr y"
    for vs i y
  proof -
    from vs have "elementsOrEmpty isFalsy (property (items ! j) ''yearly_values'') = Inr vs"
      by (simp add: elementsOrEmpty_def)
    with item have r: "reduce (yearly_step toString) vs
                         \<lparr>own = Map.empty, prototype = Plain ObjectPrototype\<rparr>
                       = Inr (values (lineItems ! j))"
      by (rule line_item_of_values)
    from y have "toPropertyKey toString (property (vs ! i) ''year'') = Inr y"
      by (simp add: toPropertyKey_def)
    from reduce_yearly_last [OF r np i this later] show ?thesis .
  qed
  have none: "own (values (lineItems ! j)) y = None"
    if vs: "property (items ! j) ''yearly_values'' = Some (JArr vs)"
      and no: "\<forall>k<length vs. toPropertyKey toString (property (vs ! k) ''year'') \<noteq> Inr y"
    for vs y
  proof -
    from vs have "elementsOrEmpty isFalsy (property (items ! j) ''yearly_values'') = Inr vs"
      by (simp add: elementsOrEmpty_def)
    with item have r: "reduce (yearly_step toString) vs
                         \<lparr>own = Map.empty, prototype = Plain ObjectPrototype\<rparr>
                       = Inr (values (lineItems ! j))"
      by (rule line_item_of_values)
    from reduce_yearly_absent [OF r no] show ?thesis by simp
  qed
  have empty: "values (lineItems ! j) = \<lparr>own = Map.empty, prototype = Plain ObjectPrototype\<rparr>"
    if "property (items ! j) ''yearly_values'' = None"
  proof -
    from that have "elementsOrEmpty isFalsy (property (items ! j) ''yearly_values'') = Inr []"
      by (simp add: elementsOrEmpty_def)
    with item have "reduce (yearly_step toString) []
                      \<lparr>own = Map.empty, prototype = Plain ObjectPrototype\<rparr>
                    = Inr (values (lineItems ! j))"
      by (rule line_item_of_values)
    then show ?thesis by simp
  qed
  show ?thesis using len some none empty unfolding fd by blast
qed

lemma example_raw_transformed:
  "\<exists>fd. transformRawApiResponse example_isFalsy example_toString example_raw = Inr fd"
  by (simp add: transformRawApiResponse_def example_raw_def elementsOrEmpty_def
      toPropertyKey_def)

lemma transformRawApiResponse_values_example:
  "\<exists>fd. transformRawApiResponse example_isFalsy example_toString example_raw = Inr fd
     \<and> length (line_items fd) = 2
     \<and> own (values (line_items fd ! 0)) ''2024'' = Some (Some (JNum 12))
     \<and> own (values (line_items fd ! 0)) ''2023'' = Some (Some JNull)
     \<and> own (values (line_items fd ! 0)) ''2022'' = None
     \<and> values (line_items fd ! 1) = \<lparr>own = Map.empty, prototype = Plain ObjectPrototype\<rparr>"
proof -
  from example_raw_transformed obtain fd
    where fd: "transformRawApiResponse example_isFalsy example_toString example_raw = Inr fd" ..
  define vs :: "nat json list" where
    "vs = [JObj [(''year'', JStr ''2024''), (''value'', JNum 10)],
           JObj [(''year'', JStr ''2023''), (''value'', JNull)],
           JObj [(''year'', JStr ''2024''), (''value'', JNum 12)]]"
  define items :: "nat json list" where
    "items = [JObj [(''name'', JStr ''Revenue''),
                    (''standardized_name'', JStr ''Revenue from Operations''),
                    (''yearly_values'', JArr vs)],
              JObj [(''name'', JStr ''PAT'')]]"
  have li: "property example_raw ''line_items'' = Some (JArr items)"
    by (simp add: example_raw_def items_def vs_def)
  have j0: "0 < length items" and j1: "1 < length items"
    by (simp_all add: items_def)
  have yv0: "property (items ! 0) ''yearly_values'' = Some (JArr vs)"
    and yv1: "property (items ! 1) ''yearly_values'' = None"
    by (simp_all add: items_def)
  have key: "toPropertyKey example_toString (property (vs ! k) ''year'')
             = Inr (if k = 1 then ''2023'' else ''2024'')" if "k < length vs" for k
  proof -
    from that have "k = 0 \<or> k = 1 \<or> k = 2" by (auto simp: vs_def)
    then show ?thesis by (auto simp: vs_def toPropertyKey_def)
  qed
  note t0 = transformRawApiResponse_values_except_proto [OF fd li j0]
  note t1 = transformRawApiResponse_values_except_proto [OF fd li j1]
  note last = t0 [THEN conjunct2, THEN conjunct1, rule_format, OF yv0, THEN conjunct1,
      rule_format]
  note absent = t0 [THEN conjunct2, THEN conjunct1, rule_format, OF yv0, THEN conjunct2,
      rule_format]
  have "length (line_items fd) = 2"
    using t0 by (simp add: items_def)
  moreover have "own (values (line_items fd ! 0)) ''2024'' = Some (Some (JNum 12))"
  proof -
    have i: "2 < length vs" and y: "property (vs ! 2) ''year'' = Some (JStr ''2024'')"
      and v: "property (vs ! 2) ''value'' = Some (JNum 12)"
      by (simp_all add: vs_def)
    have np: "''2024'' \<noteq> ''__proto__''" by simp
    have "\<forall>k. 2 < k \<and> k < length vs \<longrightarrow>
            toPropertyKey example_toString (property (vs ! k) ''year'') \<noteq> Inr ''2024''"
      using i by (auto simp: vs_def)
    from last [OF i y np this [rule_format]] v show ?thesis by simp
  qed
  moreover have "own (values (line_items fd ! 0)) ''2023'' = Some (Some JNull)"
  proof -
    have i: "1 < length vs" and y: "property (vs ! 1) ''year'' = Some (JStr ''2023'')"
      and v: "property (vs ! 1) ''value'' = Some JNull"
      by (simp_all add: vs_def)
    have np: "''2023'' \<noteq> ''__proto__''" by simp
    have "\<forall>k. 1 < k \<and> k < length vs \<longrightarrow>
            toPropertyKey example_toString (property (vs ! k) ''year'') \<noteq> Inr ''2023''"
      using key by auto
    from last [OF i y np this [rule_format]] v show ?thesis by simp
  qed
  moreover have "own (values (line_items fd ! 0)) ''2022'' = None"
  proof -
    have "\<forall>k<length vs.
            toPropertyKey example_toString (property (vs ! k) ''year'') \<noteq> Inr ''2022''"
      using key by auto
    from absent [OF this [rule_format]] show ?thesis .
  qed
  moreover have "values (line_items fd ! 1)
                 = \<lparr>own = Map.empty, prototype = Plain ObjectPrototype\<rparr>"
    using t1 yv1 by simp
  ultimately show ?thesis using fd by blast
qed

text \<open>
  Claim C1 at the year label \<^verbatim>\<open>__proto__\<close>. The response has a line item whose
  \<open>yearly_values\<close> are an entry for \<^verbatim>\<open>__proto__\<close> with the value 5 and an entry for
  \<^verbatim>\<open>2024\<close> with the value 10. The object that the normalizer builds has the entry for
  \<^verbatim>\<open>2024\<close> and none for \<^verbatim>\<open>__proto__\<close>: the assignment went to the inherited setter,
  which ignores a number.
\<close>

theorem proto_year_gets_no_entry:
  "property (JObj [(''year'', JStr ''__proto__''), (''value'', JNum (5::nat))]) ''year''
     = Some (JStr ''__proto__'')
   \<and> transformRawApiResponse example_isFalsy example_toString example_proto_raw =
     Inr \<lparr>company_name = JStr ''Unknown Entity'', currency = JNull, units = JNull,
          years = JArr [],
          line_items =
            [\<lparr>name = Some (JStr ''Revenue''),
              standardized_name = Some (JStr ''Revenue from Operations''),
              values = \<lparr>own = [''2024'' \<mapsto> Some (JNum 10)],
                        prototype = Plain ObjectPrototype\<rparr>\<rparr>],
          missing_line_items = JArr [], completeness = JStr ''Not Found''\<rparr>
   \<and> [''2024'' \<mapsto> Some (JNum (10::nat))] ''__proto__'' = None"
  by (simp add: transformRawApiResponse_def example_proto_raw_def elementsOrEmpty_def
      toPropertyKey_def assign_def reachesSetter_def orElse_def)

text \<open>
  With the value \<^verbatim>\<open>null\<close> the same entry replaces the prototype of the object, and an
  entry for \<^verbatim>\<open>__proto__\<close> after that is written as an entry of the object's own.
\<close>

lemma proto_year_replaces_prototype:
  "reduce (yearly_step example_toString)
     [JObj [(''year'', JStr ''__proto__''), (''value'', JNull)],
      JObj [(''year'', JStr ''__proto__''), (''value'', JNum (5::nat))]]
     \<lparr>own = Map.empty, prototype = Plain ObjectPrototype\<rparr>
   = Inr \<lparr>own = [''__proto__'' \<mapsto> Some (JNum 5)], prototype = Plain NullPrototype\<rparr>"
  by (simp add: yearly_step_def toPropertyKey_def assign_def reachesSetter_def)

section \<open>Properties of the extraction client\<close>

lemma reduce_all_Inr:
  "(\<And>x acc. x \<in> set xs \<Longrightarrow> \<exists>acc'. f acc x = Inr acc') \<Longrightarrow> \<exists>r. reduce f xs acc = Inr r"
proof (induction xs arbitrary: acc)
  case Nil
  then show ?case by simp
next
  case (Cons x xs)
  then obtain acc' where "f acc x = Inr acc'" by fastforce
  moreover from Cons obtain r where "reduce f xs acc' = Inr r" by fastforce
  ultimately show ?case by simp
qed

lemma entry_typed_step:
  "entry_fields_typed v \<Longrightarrow> \<exists>acc'. yearly_step toString acc v = Inr acc'"
proof -
  assume typed: "entry_fields_typed v"
  then obtain fs where v: "v = JObj fs"
    by (auto simp: entry_fields_typed_def split: json.splits)
  show ?thesis
  proof (cases "map_of fs ''year''")
    case None
    with v show ?thesis by (simp add: yearly_step_def toPropertyKey_def)
  next
    case (Some y)
    with typed v obtain t where "y = JStr t"
      by (cases y) (simp_all add: entry_fields_typed_def)
    with Some v show ?thesis by (simp add: yearly_step_def toPropertyKey_def)
  qed
qed

lemma item_typed_line_item:
  assumes "item_fields_typed item"
  shows "\<exists>li. line_item_of isFalsy toString item = Inr li"
proof -
  from assms obtain fs where item: "item = JObj fs"
    by (auto simp: item_fields_typed_def split: json.splits)
  from assms item obtain vs where
    vs: "elementsOrEmpty isFalsy (property item ''yearly_values'') = Inr vs"
    and typed: "list_all entry_fields_typed vs"
    by (auto simp: item_fields_typed_def elementsOrEmpty_def split: option.splits json.splits)
  from typed have "\<And>x acc. x \<in> set vs \<Longrightarrow> \<exists>acc'. yearly_step toString acc x = Inr acc'"
    by (auto simp: list_all_iff intro: entry_typed_step)
  from reduce_all_Inr [of vs "yearly_step toString", OF this]
  obtain r where "reduce (yearly_step toString) vs
      \<lparr>own = Map.empty, prototype = Plain ObjectPrototype\<rparr> = Inr r" by blast
  with vs item show ?thesis by (simp add: line_item_of_def)
qed

lemma object_typed_transform:
  assumes "object_fields_typed raw"
  shows "\<exists>fd. transformRawApiResponse isFalsy toString raw = Inr fd"
proof -
  from assms obtain fs where raw: "raw = JObj fs"
    by (auto simp: object_fields_typed_def split: json.splits)
  from assms raw obtain items where
    items: "elementsOrEmpty isFalsy (property raw ''line_items'') = Inr items"
    and typed: "list_all item_fields_typed items"
    by (auto simp: object_fields_typed_def elementsOrEmpty_def split: option.splits json.splits)
  from typed have "\<And>x. x \<in> set items \<Longrightarrow> \<exists>y. line_item_of isFalsy toString x = Inr y"
    by (auto simp: list_all_iff intro: item_typed_line_item)
  from traverse_all_Inr [of items "line_item_of isFalsy toString", OF this] obtain lis
    where "traverse (line_item_of isFalsy toString) items = Inr lis" by blast
  with items raw show ?thesis by (simp add: transform_unfold)
qed

lemma extract_fails_iff:
  "isl (extractFinancialData parse isFalsy toString response) \<longleftrightarrow>
     isl response \<or> response_text_empty response
     \<or> response_text_unusable parse isFalsy toString response"
  by (auto simp: extractFinancialData_def response_text_empty_def response_text_unusable_def
      split: sum.splits option.splits)


text \<open>
  Claim C4, as it is stated, fails: when the call of the external model rejects, say with
  the message of an invalid API key, \<^verbatim>\<open>extractFinancialData\<close> fails too, and there is
  no response text that is empty or that cannot be parsed or transformed.
\<close>

theorem extractFinancialData_rejection_counterexample:
  "isl (extractFinancialData example_parse example_isFalsy example_toString
          (Inl (Exn (Some ''API key not valid. Please pass a valid API key.''))))
   \<and> \<not> response_text_empty
          (Inl (Exn (Some ''API key not valid. Please pass a valid API key.'')))
   \<and> \<not> response_text_unusable example_parse example_isFalsy example_toString
          (Inl (Exn (Some ''API key not valid. Please pass a valid API key.'')))"
  by (simp add: extractFinancialData_def response_text_empty_def response_text_unusable_def)

text \<open>
  Claim C4, amended. \<^verbatim>\<open>extractFinancialData\<close> fails exactly when the call of the
  external model rejects, or the text of the response is empty, or the text cannot be
  parsed or transformed. A rejection is passed on as it is; the other two failures throw
  the function's own two errors. In every other case the function returns what the
  normalizer returns for the parsed text. The normalizer rejects no object for a missing
  field: an object whose present fields have the types of the schema is accepted, and the
  object with no field at all gives the defaults.
\<close>

theorem extractFinancialData_outcomes:
  "(isl (extractFinancialData parse isFalsy toString response) \<longleftrightarrow>
      isl response \<or> response_text_empty response
      \<or> response_text_unusable parse isFalsy toString response)
   \<and> (\<forall>err. response = Inl err \<longrightarrow>
         extractFinancialData parse isFalsy toString response = Inl err)
   \<and> (response_text_empty response \<longrightarrow>
         extractFinancialData parse isFalsy toString response =
           Inl (Exn (Some ''The extraction engine returned an empty response.'')))
   \<and> (response_text_unusable parse isFalsy toString response \<longrightarrow>
         extractFinancialData parse isFalsy toString response =
           Inl (Exn (Some
             ''The document was processed, but the data structure was unrecognizable.'')))
   \<and> (\<forall>text raw. response = Inr (Some text) \<and> text \<noteq> [] \<and> parse text = Some raw \<longrightarrow>
         (\<forall>fd. transformRawApiResponse isFalsy toString raw = Inr fd \<longrightarrow>
               extractFinancialData parse isFalsy toString response = Inr fd)
         \<and> (object_fields_typed raw \<longrightarrow>
               (\<exists>fd. extractFinancialData parse isFalsy toString response = Inr fd)))
   \<and> transformRawApiResponse isFalsy toString (JObj []) =
         Inr \<lparr>company_name = JStr ''Unknown Entity'', currency = JNull, units = JNull,
              years = JArr [], line_items = [], missing_line_items = JArr [],
              completeness = JStr ''Not Found''\<rparr>"
proof -
  have a: "\<forall>err. response = Inl err \<longrightarrow>
         extractFinancialData parse isFalsy toString response = Inl err"
    by (simp add: extractFinancialData_def)
  have b: "response_text_empty response \<longrightarrow>
         extractFinancialData parse isFalsy toString response =
           Inl (Exn (Some ''The extraction engine returned an empty response.''))"
    by (auto simp: extractFinancialData_def response_text_empty_def)
  have c: "response_text_unusable parse isFalsy toString response \<longrightarrow>
         extractFinancialData parse isFalsy toString response =
           Inl (Exn (Some
             ''The document was processed, but the data structure was unrecognizable.''))"
    by (auto simp: extractFinancialData_def response_text_unusable_def
        split: sum.splits option.splits)
  have d: "extractFinancialData parse isFalsy toString response = Inr fd"
    if "response = Inr (Some body)" "body \<noteq> []" "parse body = Some raw"
      "transformRawApiResponse isFalsy toString raw = Inr fd" for body raw fd
    using that by (simp add: extractFinancialData_def)
  have e: "\<exists>fd. extractFinancialData parse isFalsy toString response = Inr fd"
    if r: "response = Inr (Some body)" and t: "body \<noteq> []" and p: "parse body = Some raw"
      and ok: "object_fields_typed raw" for body raw
    using object_typed_transform [OF ok, of isFalsy toString] d [OF r t p] by blast
  have f: "transformRawApiResponse isFalsy toString (JObj []) =
         Inr \<lparr>company_name = JStr ''Unknown Entity'', currency = JNull, units = JNull,
              years = JArr [], line_items = [], missing_line_items = JArr [],
              completeness = JStr ''Not Found''\<rparr>"
    by (simp add: transformRawApiResponse_def elementsOrEmpty_def orElse_def)
  show ?thesis
    using extract_fails_iff [of parse isFalsy toString response] a b c d e f by blast
qed

theorem extractFinancialData_outcomes_witness:
  "extractFinancialData example_parse example_isFalsy example_toString (Inr (Some ''{}'')) =
     Inr \<lparr>company_name = JStr ''Unknown Entity'', currency = JNull, units = JNull,
          years = JArr [], line_items = [], missing_line_items = JArr [],
          completeness = JStr ''Not Found''\<rparr>
   \<and> (\<exists>fd. extractFinancialData example_parse example_isFalsy example_toString
              (Inr (Some ''{\"line_items\":[{}]}'')) = Inr fd)
   \<and> extractFinancialData example_parse example_isFalsy example_toString (Inr (Some ''null''))
       = Inl (Exn (Some
           ''The document was processed, but the data structure was unrecognizable.''))
   \<and> extractFinancialData example_parse example_isFalsy example_toString (Inr None)
       = Inl (Exn (Some ''The extraction engine returned an empty response.''))
   \<and> extractFinancialData example_parse example_isFalsy example_toString
        (Inl (Exn (Some ''API key not valid''))) = Inl (Exn (Some ''API key not valid''))"
proof -
  note t = extractFinancialData_outcomes [of example_parse example_isFalsy example_toString]
  have p1: "Inr (Some ''{}'') = Inr (Some ''{}'') \<and> ''{}'' \<noteq> []
            \<and> example_parse ''{}'' = Some (JObj [])"
    by (simp add: example_parse_def)
  have "extractFinancialData example_parse example_isFalsy example_toString
          (Inr (Some ''{}'')) =
     Inr \<lparr>company_name = JStr ''Unknown Entity'', currency = JNull, units = JNull,
          years = JArr [], line_items = [], missing_line_items = JArr [],
          completeness = JStr ''Not Found''\<rparr>"
    using t [of "Inr (Some ''{}'')", THEN conjunct2, THEN conjunct2, THEN conjunct2,
        THEN conjunct2, THEN conjunct1, rule_format, OF p1, THEN conjunct1, rule_format]
      t [of "Inr (Some ''{}'')", THEN conjunct2, THEN conjunct2, THEN conjunct2,
        THEN conjunct2, THEN conjunct2]
    by blast
  moreover
  have p2: "Inr (Some ''{\"line_items\":[{}]}'') = Inr (Some ''{\"line_items\":[{}]}'')
            \<and> ''{\"line_items\":[{}]}'' \<noteq> []
            \<and> example_parse ''{\"line_items\":[{}]}'' = Some (JObj [(''line_items'', JArr [JObj []])])"
    by (simp add: example_parse_def)
  have typed: "object_fields_typed (JObj [(''line_items'', JArr [JObj []])] :: nat json)"
    by (simp add: object_fields_typed_def item_fields_typed_def)
  have "\<exists>fd. extractFinancialData example_parse example_isFalsy example_toString
              (Inr (Some ''{\"line_items\":[{}]}'')) = Inr fd"
    using t [of "Inr (Some ''{\"line_items\":[{}]}'')", THEN conjunct2, THEN conjunct2,
        THEN conjunct2, THEN conjunct2, THEN conjunct1, rule_format, OF p2, THEN conjunct2,
        rule_format, OF typed] .
  moreover
  have "response_text_unusable example_parse example_isFalsy example_toString
          (Inr (Some ''null''))"
    by (simp add: response_text_unusable_def example_parse_def transformRawApiResponse_def)
  from t [of "Inr (Some ''null'')", THEN conjunct2, THEN conjunct2, THEN conjunct2,
        THEN conjunct1, rule_format, OF this]
  have "extractFinancialData example_parse example_isFalsy example_toString
          (Inr (Some ''null''))
       = Inl (Exn (Some
           ''The document was processed, but the data structure was unrecognizable.''))" .
  moreover
  have "response_text_empty (Inr None)"
    by (simp add: response_text_empty_def)
  from t [of "Inr None", THEN conjunct2, THEN conjunct2, THEN conjunct1, rule_format, OF this]
  have "extractFinancialData example_parse example_isFalsy example_toString (Inr None)
       = Inl (Exn (Some ''The extraction engine returned an empty response.''))" .
  moreover
  from t [of "Inl (Exn (Some ''API key not valid''))", THEN conjunct2, THEN conjunct1,
      rule_format, OF refl]
  have "extractFinancialData example_parse example_isFalsy example_toString
        (Inl (Exn (Some ''API key not valid''))) = Inl (Exn (Some ''API key not valid''))" .
  ultimately show ?thesis by blast
qed

section \<open>Properties of the batch orchestrator\<close>

lemma includes_str_iff: "includes_str s sub \<longleftrightarrow> (\<exists>p q. s = p @ sub @ q)"
proof (induction s)
  case Nil
  show ?case by auto
next
  case (Cons c cs)
  have pre: "take (length sub) (c # cs) = sub \<longleftrightarrow> (\<exists>q. c # cs = sub @ q)"
    by (metis append_eq_conv_conj append_take_drop_id)
  have "(\<exists>p q. c # cs = p @ sub @ q) \<longleftrightarrow> (\<exists>q. c # cs = sub @ q) \<or> (\<exists>p q. cs = p @ sub @ q)"
  proof
    assume "\<exists>p q. c # cs = p @ sub @ q"
    then obtain p q where pq: "c # cs = p @ sub @ q" by blast
    show "(\<exists>q. c # cs = sub @ q) \<or> (\<exists>p q. cs = p @ sub @ q)"
    proof (cases p)
      case Nil
      with pq show ?thesis by auto
    next
      case (Cons a p')
      with pq have "cs = p' @ sub @ q" by simp
      then show ?thesis by blast
    qed
  next
    assume "(\<exists>q. c # cs = sub @ q) \<or> (\<exists>p q. cs = p @ sub @ q)"
    then show "\<exists>p q. c # cs = p @ sub @ q"
    proof
      assume "\<exists>q. c # cs = sub @ q"
      then obtain q where "c # cs = [] @ sub @ q" by auto
      then show ?thesis by blast
    next
      assume "\<exists>p q. cs = p @ sub @ q"
      then obtain p q where "c # cs = (c # p) @ sub @ q" by auto
      then show ?thesis by blast
    qed
  qed
  with pre Cons show ?case by simp
qed

lemma callback_keeps:
  "status (callback e s) = status s" "results (callback e s) = results s"
  by (cases e; simp add: Let_def)+

lemma fold_callback_keeps:
  "status (fold callback es s) = status s \<and> results (fold callback es s) = results s"
  by (induction es arbitrary: s) (simp_all add: callback_keeps)


lemma sum_list_map_update:
  fixes f :: "'a \<Rightarrow> nat"
  shows "i < length xs \<Longrightarrow>
    sum_list (map f (xs[i := x])) + f (xs ! i) = sum_list (map f xs) + f x"
proof (induction xs arbitrary: i)
  case Nil
  then show ?case by simp
next
  case (Cons a xs)
  then show ?case by (cases i) (simp_all add: add.assoc add.left_commute)
qed

lemma interleaving_Cons_iff:
  "interleaving tss (e # es) \<longleftrightarrow>
     (\<exists>i<length tss. tss ! i \<noteq> [] \<and> hd (tss ! i) = e
        \<and> interleaving (tss[i := tl (tss ! i)]) es)"
  by (auto simp: list_ex_iff)

lemma interleaving_count:
  "interleaving tss es \<Longrightarrow>
   length (filter P es) = sum_list (map (\<lambda>ts. length (filter P ts)) tss)"
proof (induction es arbitrary: tss)
  case Nil
  then have "\<forall>ts\<in>set tss. ts = []" by (simp add: list_all_iff)
  then have "sum_list (map (\<lambda>ts. length (filter P ts)) tss) = 0" by auto
  then show ?case by simp
next
  case (Cons e es)
  from Cons.prems obtain i where i: "i < length tss" and ne: "tss ! i \<noteq> []"
    and hd: "hd (tss ! i) = e" and rest: "interleaving (tss[i := tl (tss ! i)]) es"
    unfolding interleaving_Cons_iff by blast
  from ne hd have ti: "tss ! i = e # tl (tss ! i)" by (cases "tss ! i") auto
  let ?f = "\<lambda>ts. length (filter P ts)"
  define d :: nat where "d = (if P e then 1 else 0)"
  have A: "length (filter P es) = sum_list (map ?f (tss[i := tl (tss ! i)]))"
    by (rule Cons.IH [OF rest])
  have B: "sum_list (map ?f (tss[i := tl (tss ! i)])) + ?f (tss ! i)
                 = sum_list (map ?f tss) + ?f (tl (tss ! i))"
    by (rule sum_list_map_update [OF i])
  have C: "?f (tss ! i) = ?f (tl (tss ! i)) + d"
    unfolding d_def by (subst ti) simp
  have D: "length (filter P (e # es)) = d + length (filter P es)"
    unfolding d_def by simp
  from A B C D show ?case by linarith
qed

lemma interleaving_Nil_Cons:
  "interleaving tss es \<Longrightarrow> interleaving ([] # tss) es"
proof (induction es arbitrary: tss)
  case Nil
  then show ?case by simp
next
  case (Cons e es)
  from Cons.prems obtain i where i: "i < length tss" and ne: "tss ! i \<noteq> []"
    and hd: "hd (tss ! i) = e" and rest: "interleaving (tss[i := tl (tss ! i)]) es"
    unfolding interleaving_Cons_iff by blast
  from Cons.IH [OF rest] have "interleaving (([] # tss)[Suc i := tl (([] # tss) ! Suc i)]) es"
    by simp
  with i ne hd have "\<exists>k<length ([] # tss). ([] # tss) ! k \<noteq> [] \<and> hd (([] # tss) ! k) = e
        \<and> interleaving (([] # tss)[k := tl (([] # tss) ! k)]) es"
    by (intro exI [of _ "Suc i"]) simp
  then show ?case unfolding interleaving_Cons_iff .
qed

lemma interleaving_append_concat:
  "interleaving tss es \<Longrightarrow> interleaving (ts # tss) (ts @ es)"
proof (induction ts)
  case Nil
  then show ?case by (simp add: interleaving_Nil_Cons)
next
  case (Cons x ts)
  then have "interleaving (((x # ts) # tss)[0 := tl (((x # ts) # tss) ! 0)]) (ts @ es)"
    by simp
  then have "\<exists>k<length ((x # ts) # tss). ((x # ts) # tss) ! k \<noteq> []
        \<and> hd (((x # ts) # tss) ! k) = x
        \<and> interleaving (((x # ts) # tss)[k := tl (((x # ts) # tss) ! k)]) (ts @ es)"
    by (intro exI [of _ 0]) simp
  then have "interleaving ((x # ts) # tss) (x # (ts @ es))"
    unfolding interleaving_Cons_iff .
  then show ?case by simp
qed

lemma interleaving_concat: "interleaving tss (concat tss)"
  by (induction tss) (simp_all add: interleaving_append_concat)

lemma callback_calls:
  "length (extractCalls (callback e s)) = length (extractCalls s) + (if isOnLoad e then 1 else 0)"
  by (cases e) (simp_all add: Let_def)

lemma fold_callback_calls:
  "length (extractCalls (fold callback es s))
   = length (extractCalls s) + length (filter isOnLoad es)"
  by (induction es arbitrary: s) (simp_all add: callback_calls)

lemma processSingleFile_loads:
  "length (filter isOnLoad (fst (processSingleFile parse isFalsy toString f)))
   = (if reader_result f \<noteq> None then 1 else 0)"
  by (simp add: processSingleFile_def split: option.splits sum.splits)

lemma batch_loads:
  "sum_list (map (\<lambda>ts. length (filter isOnLoad ts)) (batchCallbacks parse isFalsy toString files))
   = length (filter (\<lambda>f. file_type f = ''application/pdf'' \<and> reader_result f \<noteq> None) files)"
  unfolding batchCallbacks_def
  by (induction files) (simp_all add: processSingleFile_loads)

lemma aggregate_calls: "extractCalls (aggregate rs e s) = extractCalls s"
  by (simp add: aggregate_def Let_def)

lemma enqueue_calls: "extractCalls (enqueue fs s) = extractCalls s"
  by (simp add: enqueue_def Let_def)

text \<open>
  Claim C6, amended. Whatever the order in which the callbacks of a batch run, the handler
  calls \<^verbatim>\<open>extractFinancialData\<close> once for each file of the batch that is a PDF and
  that the reader could read, and for no other file.
\<close>

theorem extraction_calls_count:
  assumes "interleaving (batchCallbacks parse isFalsy toString files) schedule"
  shows "length (extractCalls (handleFileUpload parse isFalsy toString schedule files s))
         = length (extractCalls s)
           + length (filter (\<lambda>f. file_type f = ''application/pdf'' \<and> reader_result f \<noteq> None)
                       files)"
proof (cases "filter (\<lambda>f. file_type f = ''application/pdf'') files = []")
  case True
  then have "filter (\<lambda>f. file_type f = ''application/pdf'' \<and> reader_result f \<noteq> None) files = []"
    by (auto simp: filter_empty_conv)
  with True show ?thesis by (simp add: handleFileUpload_def)
next
  case False
  then have "files \<noteq> []" by auto
  with False have "extractCalls (handleFileUpload parse isFalsy toString schedule files s)
      = extractCalls (fold callback schedule
          (enqueue (filter (\<lambda>f. file_type f = ''application/pdf'') files) s))"
    by (simp add: handleFileUpload_def Let_def aggregate_calls)
  then show ?thesis
    using interleaving_count [OF assms, of isOnLoad]
    by (simp add: fold_callback_calls enqueue_calls batch_loads)
qed


text \<open>
  Claim C6, as it is stated, fails: of a batch of two files of which one is not a PDF, only
  one reaches \<^verbatim>\<open>extractFinancialData\<close>.
\<close>

theorem extraction_calls_counterexample:
  "length (extractCalls
      (handleFileUpload example_parse example_isFalsy example_toString
         (inOrder example_parse example_isFalsy example_toString [example_upload, example_notes])
         [example_upload, example_notes] initialState)) = 1
   \<and> extractCalls initialState = []
   \<and> length [example_upload, example_notes] = 2"
  by (simp add: handleFileUpload_def inOrder_def batchCallbacks_def processSingleFile_def
      extractFinancialData_def example_upload_def example_notes_def example_parse_def
      initialState_def enqueue_def aggregate_def Let_def
      transformRawApiResponse_def elementsOrEmpty_def)

theorem extraction_calls_count_witness:
  "interleaving
     (batchCallbacks example_parse example_isFalsy example_toString
        [example_upload, example_notes, example_denied, example_unreadable])
     (inOrder example_parse example_isFalsy example_toString
        [example_upload, example_notes, example_denied, example_unreadable])
   \<and> length (extractCalls
        (handleFileUpload example_parse example_isFalsy example_toString
           (inOrder example_parse example_isFalsy example_toString
              [example_upload, example_notes, example_denied, example_unreadable])
           [example_upload, example_notes, example_denied, example_unreadable] initialState))
       = length (extractCalls initialState)
         + length (filter (\<lambda>f. file_type f = ''application/pdf'' \<and> reader_result f \<noteq> None)
                     [example_upload, example_notes, example_denied, example_unreadable])"
proof -
  have h: "interleaving
     (batchCallbacks example_parse example_isFalsy example_toString
        [example_upload, example_notes, example_denied, example_unreadable])
     (inOrder example_parse example_isFalsy example_toString
        [example_upload, example_notes, example_denied, example_unreadable])"
    unfolding inOrder_def by (rule interleaving_concat)
  show ?thesis by (rule conjI [OF h extraction_calls_count [OF h]])
qed

lemma map_the_filter: "map the (filter (\<lambda>r. r \<noteq> None) (map g xs)) = List.map_filter g xs"
  by (simp add: List.map_filter_def filter_map comp_def)

lemma processSingleFile_resolves:
  "snd (processSingleFile parse isFalsy toString f) =
    (case reader_result f of
       None \<Rightarrow> None
     | Some url \<Rightarrow>
        (case extractFinancialData parse isFalsy toString (model_response f) of
           Inl err \<Rightarrow> None
         | Inr d \<Rightarrow> Some \<lparr>fileName = file_name f, data = d\<rparr>))"
  by (simp add: processSingleFile_def split: option.splits sum.splits)

text \<open>
  Claim C7. For a batch with at least one PDF, and whatever the order of the callbacks:
  when all files have settled, the results list is the one before the batch followed by
  the results of the files that were read and extracted, each with its file name, in the
  order of the batch; files that failed add nothing. If there is such a result the status
  is \<open>SUCCESS\<close>; if there is none the status is \<open>ERROR\<close> and the results list is the one
  before the batch.
\<close>

theorem partial_failures_aggregated:
  assumes "filter (\<lambda>f. file_type f = ''application/pdf'') files \<noteq> []"
  shows "(let s' = handleFileUpload parse isFalsy toString schedule files s;
              successes =
                List.map_filter
                  (\<lambda>f. case reader_result f of
                          None \<Rightarrow> None
                        | Some url \<Rightarrow>
                           (case extractFinancialData parse isFalsy toString (model_response f) of
                              Inl err \<Rightarrow> None
                            | Inr d \<Rightarrow> Some \<lparr>fileName = file_name f, data = d\<rparr>))
                  (filter (\<lambda>f. file_type f = ''application/pdf'') files)
          in results s' = results s @ successes
             \<and> (successes \<noteq> [] \<longrightarrow> status s' = SUCCESS)
             \<and> (successes = [] \<longrightarrow> status s' = ERROR \<and> results s' = results s))"
proof -
  let ?pdfs = "filter (\<lambda>f. file_type f = ''application/pdf'') files"
  let ?mid = "fold callback schedule (enqueue ?pdfs s)"
  let ?settled = "map snd (map (processSingleFile parse isFalsy toString) ?pdfs)"
  from assms have ne: "files \<noteq> []" by auto
  have run: "handleFileUpload parse isFalsy toString schedule files s
             = aggregate ?settled (error s) ?mid"
    using assms ne by (simp add: handleFileUpload_def Let_def)
  have mid: "results ?mid = results s"
    using fold_callback_keeps [of schedule "enqueue ?pdfs s"] by (simp add: enqueue_def Let_def)
  have valid: "map the (filter (\<lambda>r. r \<noteq> None) ?settled)
        = List.map_filter
                  (\<lambda>f. case reader_result f of
                          None \<Rightarrow> None
                        | Some url \<Rightarrow>
                           (case extractFinancialData parse isFalsy toString (model_response f) of
                              Inl err \<Rightarrow> None
                            | Inr d \<Rightarrow> Some \<lparr>fileName = file_name f, data = d\<rparr>))
                  ?pdfs"
    unfolding map_map map_the_filter by (simp add: comp_def processSingleFile_resolves)
  show ?thesis
    unfolding Let_def run valid [symmetric]
    by (simp add: aggregate_def Let_def mid)
qed


lemma example_extractions:
  "extractFinancialData example_parse example_isFalsy example_toString
     (model_response example_upload) =
     Inr \<lparr>company_name = JStr ''Unknown Entity'', currency = JNull, units = JNull,
          years = JArr [], line_items = [], missing_line_items = JArr [],
          completeness = JStr ''Not Found''\<rparr>"
  "extractFinancialData example_parse example_isFalsy example_toString
     (model_response example_denied) =
     Inl (Exn (Some ''[400] API key not valid. Please pass a valid API key.''))"
  by (simp_all add: extractFinancialData_def example_upload_def example_denied_def
      example_parse_def transformRawApiResponse_def elementsOrEmpty_def orElse_def)

theorem partial_failures_aggregated_witness:
  "results (handleFileUpload example_parse example_isFalsy example_toString
      (inOrder example_parse example_isFalsy example_toString
         [example_upload, example_notes, example_denied, example_unreadable])
      [example_upload, example_notes, example_denied, example_unreadable] initialState)
     = [\<lparr>fileName = ''report.pdf'',
         data = \<lparr>company_name = JStr ''Unknown Entity'', currency = JNull, units = JNull,
                  years = JArr [], line_items = [], missing_line_items = JArr [],
                  completeness = JStr ''Not Found''\<rparr>\<rparr>]
   \<and> status (handleFileUpload example_parse example_isFalsy example_toString
      (inOrder example_parse example_isFalsy example_toString
         [example_upload, example_notes, example_denied, example_unreadable])
      [example_upload, example_notes, example_denied, example_unreadable] initialState)
     = SUCCESS
   \<and> results (handleFileUpload example_parse example_isFalsy example_toString
      (inOrder example_parse example_isFalsy example_toString
         [example_denied, example_unreadable])
      [example_denied, example_unreadable] initialState) = []
   \<and> status (handleFileUpload example_parse example_isFalsy example_toString
      (inOrder example_parse example_isFalsy example_toString
         [example_denied, example_unreadable])
      [example_denied, example_unreadable] initialState) = ERROR"
proof -
  have h1: "filter (\<lambda>f. file_type f = ''application/pdf'')
              [example_upload, example_notes, example_denied, example_unreadable] \<noteq> []"
    by (simp add: example_upload_def)
  have h2: "filter (\<lambda>f. file_type f = ''application/pdf'')
              [example_denied, example_unreadable] \<noteq> []"
    by (simp add: example_denied_def)
  have types: "file_type example_upload = ''application/pdf''"
    "file_type example_notes = ''text/plain''"
    "file_type example_denied = ''application/pdf''"
    "file_type example_unreadable = ''application/pdf''"
    and reads: "reader_result example_upload = Some ''data:application/pdf;base64,JVBERi0x''"
    "reader_result example_denied = Some ''data:application/pdf;base64,JVBERi0y''"
    "reader_result example_unreadable = None"
    and names: "file_name example_upload = ''report.pdf''"
    by (simp_all add: example_upload_def example_notes_def example_denied_def
        example_unreadable_def)
  have res0: "results initialState = []" by (simp add: initialState_def)
  note t1 = partial_failures_aggregated [OF h1, of example_parse example_isFalsy
      example_toString
      "inOrder example_parse example_isFalsy example_toString
         [example_upload, example_notes, example_denied, example_unreadable]" initialState,
      unfolded Let_def]
  note t2 = partial_failures_aggregated [OF h2, of example_parse example_isFalsy
      example_toString
      "inOrder example_parse example_isFalsy example_toString
         [example_denied, example_unreadable]" initialState,
      unfolded Let_def]
  show ?thesis
    using t1 t2
    by (simp add: types reads names res0 example_extractions List.map_filter_def)
qed

text \<open>
  Claim C8. When the extraction of a file fails with the error \<open>err\<close>, the promise of the
  file resolves to null, and the \<^verbatim>\<open>catch\<close> block does this: if the message of the
  error contains \<^verbatim>\<open>API key not valid\<close> or \<^verbatim>\<open>Requested entity was not found\<close>, the
  key is marked as not configured and the error message is set to the authentication
  message; if it contains neither, both are left as they were. In both cases the queue
  keeps all its entries, in their places: those with the name of the file get the status
  \<open>Error\<close>, the others are as they were; the status of the component and its results are
  untouched. A file that cannot be read resolves to null, with the same change of the
  queue.
\<close>

theorem authentication_failure_detected:
  "(reader_result file = None \<longrightarrow>
      processSingleFile parse isFalsy toString file = ([OnError file], None)
      \<and> length (queue (callback (OnError file) s)) = length (queue s)
      \<and> (\<forall>i<length (queue s).
            queue (callback (OnError file) s) ! i =
              (if fs_name (queue s ! i) = file_name file
               then (queue s ! i)\<lparr>fs_status := Error\<rparr> else queue s ! i)))
   \<and> (\<forall>url err.
        reader_result file = Some url
        \<and> extractFinancialData parse isFalsy toString (model_response file) = Inl err \<longrightarrow>
        processSingleFile parse isFalsy toString file = ([OnLoad file url, Caught file err], None)
        \<and> (let msg = (case message err of None \<Rightarrow> [] | Some m \<Rightarrow> m);
                auth = ((\<exists>p q. msg = p @ ''API key not valid'' @ q)
                        \<or> (\<exists>p q. msg = p @ ''Requested entity was not found'' @ q));
                s' = callback (Caught file err) s
            in (auth \<longrightarrow>
                  \<not> isKeyConfigured s'
                  \<and> error s' = Some ''Authentication failed. Please re-configure your API key.'')
               \<and> (\<not> auth \<longrightarrow> isKeyConfigured s' = isKeyConfigured s \<and> error s' = error s)
               \<and> length (queue s') = length (queue s)
               \<and> (\<forall>i<length (queue s).
                     queue s' ! i =
                       (if fs_name (queue s ! i) = file_name file
                        then (queue s ! i)\<lparr>fs_status := Error\<rparr> else queue s ! i))
               \<and> status s' = status s \<and> results s' = results s))"
proof -
  have a: "reader_result file = None \<longrightarrow>
      processSingleFile parse isFalsy toString file = ([OnError file], None)
      \<and> length (queue (callback (OnError file) s)) = length (queue s)
      \<and> (\<forall>i<length (queue s).
            queue (callback (OnError file) s) ! i =
              (if fs_name (queue s ! i) = file_name file
               then (queue s ! i)\<lparr>fs_status := Error\<rparr> else queue s ! i))"
    by (simp add: processSingleFile_def setFileStatus_def)
  have msg: "(case message err of None \<Rightarrow> [] | Some m \<Rightarrow> if m = [] then [] else m)
             = (case message err of None \<Rightarrow> [] | Some m \<Rightarrow> m)" for err
    by (simp split: option.splits)
  have b': "processSingleFile parse isFalsy toString file = ([OnLoad file url, Caught file err], None)
        \<and> (let msg = (case message err of None \<Rightarrow> [] | Some m \<Rightarrow> m);
                auth = (includes_str msg ''API key not valid''
                        \<or> includes_str msg ''Requested entity was not found'');
                s' = callback (Caught file err) s
            in (auth \<longrightarrow>
                  \<not> isKeyConfigured s'
                  \<and> error s' = Some ''Authentication failed. Please re-configure your API key.'')
               \<and> (\<not> auth \<longrightarrow> isKeyConfigured s' = isKeyConfigured s \<and> error s' = error s)
               \<and> length (queue s') = length (queue s)
               \<and> (\<forall>i<length (queue s).
                     queue s' ! i =
                       (if fs_name (queue s ! i) = file_name file
                        then (queue s ! i)\<lparr>fs_status := Error\<rparr> else queue s ! i))
               \<and> status s' = status s \<and> results s' = results s)"
    if "reader_result file = Some url"
      and "extractFinancialData parse isFalsy toString (model_response file) = Inl err"
    for url err
    using that by (simp add: processSingleFile_def Let_def msg setFileStatus_def)
  note b = b' [unfolded includes_str_iff]
  from a b show ?thesis by blast
qed

text \<open>
  Claim C5 at a file name that is uploaded twice. After a first batch the entry of
  \<^verbatim>\<open>report.pdf\<close> is \<open>Done\<close>. When a second batch brings a file of the same name, the
  first callback of the new file sets every entry of that name to \<open>Processing\<close>, the
  finished one included: its status goes from \<open>Done\<close> back to \<open>Processing\<close>.
\<close>

theorem status_goes_backward_on_repeated_name:
  "map fs_status (queue
      (handleFileUpload example_parse example_isFalsy example_toString
         (inOrder example_parse example_isFalsy example_toString [example_upload])
         [example_upload] initialState)) = [Done]
   \<and> map fs_status (queue
      (fold callback
         (take 1 (inOrder example_parse example_isFalsy example_toString [example_upload]))
         (enqueue [example_upload]
            (handleFileUpload example_parse example_isFalsy example_toString
               (inOrder example_parse example_isFalsy example_toString [example_upload])
               [example_upload] initialState)))) = [Processing, Processing]"
  by (simp add: handleFileUpload_def inOrder_def batchCallbacks_def processSingleFile_def
      extractFinancialData_def example_upload_def example_parse_def
      initialState_def enqueue_def aggregate_def Let_def setFileStatus_def
      transformRawApiResponse_def elementsOrEmpty_def)


lemma list_of_four:
  "length xs = 4 \<Longrightarrow> xs ! 0 = a \<Longrightarrow> xs ! 1 = b \<Longrightarrow> xs ! 2 = c \<Longrightarrow> xs ! 3 = d \<Longrightarrow>
   xs = [a, b, c, d]"
  by (auto simp: eval_nat_numeral length_Suc_conv)

theorem authentication_failure_detected_witness:
  "processSingleFile example_parse example_isFalsy example_toString example_denied =
     ([OnLoad example_denied ''data:application/pdf;base64,JVBERi0y'',
       Caught example_denied
         (Exn (Some ''[400] API key not valid. Please pass a valid API key.''))], None)
   \<and> \<not> isKeyConfigured
         (callback (Caught example_denied
            (Exn (Some ''[400] API key not valid. Please pass a valid API key.'')))
            example_midway)
   \<and> error (callback (Caught example_denied
            (Exn (Some ''[400] API key not valid. Please pass a valid API key.'')))
            example_midway)
       = Some ''Authentication failed. Please re-configure your API key.''
   \<and> queue (callback (Caught example_denied
            (Exn (Some ''[400] API key not valid. Please pass a valid API key.'')))
            example_midway)
       = [\<lparr>fs_name = ''report.pdf'', fs_status = Uploading\<rparr>,
          \<lparr>fs_name = ''annual.pdf'', fs_status = Error\<rparr>,
          \<lparr>fs_name = ''scan.pdf'', fs_status = Processing\<rparr>,
          \<lparr>fs_name = ''broken.pdf'', fs_status = Uploading\<rparr>]
   \<and> processSingleFile example_parse example_isFalsy example_toString example_garbled =
     ([OnLoad example_garbled ''data:application/pdf;base64,JVBERi0z'',
       Caught example_garbled
         (Exn (Some
           ''The document was processed, but the data structure was unrecognizable.''))],
      None)
   \<and> isKeyConfigured
         (callback (Caught example_garbled
            (Exn (Some
              ''The document was processed, but the data structure was unrecognizable.'')))
            example_midway)
   \<and> error (callback (Caught example_garbled
            (Exn (Some
              ''The document was processed, but the data structure was unrecognizable.'')))
            example_midway) = None
   \<and> queue (callback (Caught example_garbled
            (Exn (Some
              ''The document was processed, but the data structure was unrecognizable.'')))
            example_midway)
       = [\<lparr>fs_name = ''report.pdf'', fs_status = Uploading\<rparr>,
          \<lparr>fs_name = ''annual.pdf'', fs_status = Processing\<rparr>,
          \<lparr>fs_name = ''scan.pdf'', fs_status = Error\<rparr>,
          \<lparr>fs_name = ''broken.pdf'', fs_status = Uploading\<rparr>]
   \<and> processSingleFile example_parse example_isFalsy example_toString example_unreadable =
     ([OnError example_unreadable], None)
   \<and> queue (callback (OnError example_unreadable) example_midway)
       = [\<lparr>fs_name = ''report.pdf'', fs_status = Uploading\<rparr>,
          \<lparr>fs_name = ''annual.pdf'', fs_status = Processing\<rparr>,
          \<lparr>fs_name = ''scan.pdf'', fs_status = Processing\<rparr>,
          \<lparr>fs_name = ''broken.pdf'', fs_status = Error\<rparr>]"
proof -
  let ?denied = "Exn (Some ''[400] API key not valid. Please pass a valid API key.'')"
  let ?garbled = "Exn (Some
      ''The document was processed, but the data structure was unrecognizable.'')"
  have p1: "reader_result example_denied = Some ''data:application/pdf;base64,JVBERi0y''
      \<and> extractFinancialData example_parse example_isFalsy example_toString
            (model_response example_denied) = Inl ?denied"
    by (simp add: example_denied_def extractFinancialData_def)
  have p2: "reader_result example_garbled = Some ''data:application/pdf;base64,JVBERi0z''
      \<and> extractFinancialData example_parse example_isFalsy example_toString
            (model_response example_garbled) = Inl ?garbled"
    by (simp add: example_garbled_def extractFinancialData_def example_parse_def)
  have p3: "reader_result example_unreadable = None"
    by (simp add: example_unreadable_def)
  note d = authentication_failure_detected [of example_denied example_parse example_isFalsy
      example_toString example_midway, THEN conjunct2, rule_format, OF p1,
      unfolded Let_def]
  note g = authentication_failure_detected [of example_garbled example_parse example_isFalsy
      example_toString example_midway, THEN conjunct2, rule_format, OF p2,
      unfolded Let_def]
  note u = authentication_failure_detected [of example_unreadable example_parse
      example_isFalsy example_toString example_midway, THEN conjunct1, rule_format, OF p3]
  have auth: "(\<exists>p q. (case message ?denied of None \<Rightarrow> [] | Some m \<Rightarrow> m)
                       = p @ ''API key not valid'' @ q)
              \<or> (\<exists>p q. (case message ?denied of None \<Rightarrow> [] | Some m \<Rightarrow> m)
                       = p @ ''Requested entity was not found'' @ q)"
    by (intro disjI1 exI [of _ "''[400] ''"] exI [of _ "''. Please pass a valid API key.''"])
      simp
  have "\<not> (includes_str (case message ?garbled of None \<Rightarrow> [] | Some m \<Rightarrow> m)
               ''API key not valid''
            \<or> includes_str (case message ?garbled of None \<Rightarrow> [] | Some m \<Rightarrow> m)
               ''Requested entity was not found'')"
    by simp
  then have noauth: "\<not> ((\<exists>p q. (case message ?garbled of None \<Rightarrow> [] | Some m \<Rightarrow> m)
                       = p @ ''API key not valid'' @ q)
              \<or> (\<exists>p q. (case message ?garbled of None \<Rightarrow> [] | Some m \<Rightarrow> m)
                       = p @ ''Requested entity was not found'' @ q))"
    unfolding includes_str_iff .
  have init: "isKeyConfigured example_midway" "error example_midway = None"
    by (simp_all add: example_midway_def initialState_def enqueue_def)
  have q0: "queue example_midway
       = [\<lparr>fs_name = ''report.pdf'', fs_status = Uploading\<rparr>,
          \<lparr>fs_name = ''annual.pdf'', fs_status = Processing\<rparr>,
          \<lparr>fs_name = ''scan.pdf'', fs_status = Processing\<rparr>,
          \<lparr>fs_name = ''broken.pdf'', fs_status = Uploading\<rparr>]"
    by (simp add: example_midway_def initialState_def enqueue_def setFileStatus_def
        example_upload_def example_denied_def example_garbled_def example_unreadable_def)
  have names: "file_name example_denied = ''annual.pdf''"
    "file_name example_garbled = ''scan.pdf''" "file_name example_unreadable = ''broken.pdf''"
    by (simp_all add: example_denied_def example_garbled_def example_unreadable_def)
  note dl = d [THEN conjunct2, THEN conjunct2, THEN conjunct2, THEN conjunct1]
  note dn = d [THEN conjunct2, THEN conjunct2, THEN conjunct2, THEN conjunct2, THEN conjunct1,
      rule_format]
  note gl = g [THEN conjunct2, THEN conjunct2, THEN conjunct2, THEN conjunct1]
  note gn = g [THEN conjunct2, THEN conjunct2, THEN conjunct2, THEN conjunct2, THEN conjunct1,
      rule_format]
  note ul = u [THEN conjunct2, THEN conjunct1]
  note un = u [THEN conjunct2, THEN conjunct2, rule_format]
  have qd: "queue (callback (Caught example_denied ?denied) example_midway)
       = [\<lparr>fs_name = ''report.pdf'', fs_status = Uploading\<rparr>,
          \<lparr>fs_name = ''annual.pdf'', fs_status = Error\<rparr>,
          \<lparr>fs_name = ''scan.pdf'', fs_status = Processing\<rparr>,
          \<lparr>fs_name = ''broken.pdf'', fs_status = Uploading\<rparr>]"
  proof (rule list_of_four)
    show "length (queue (callback (Caught example_denied ?denied) example_midway)) = 4"
      using dl by (simp del: callback.simps add: q0)
    show "queue (callback (Caught example_denied ?denied) example_midway) ! 0 = \<lparr>fs_name = ''report.pdf'', fs_status = Uploading\<rparr>"
      using dn [of 0] by (simp del: callback.simps add: q0 names)
    show "queue (callback (Caught example_denied ?denied) example_midway) ! 1 = \<lparr>fs_name = ''annual.pdf'', fs_status = Error\<rparr>"
      using dn [of 1] by (simp del: callback.simps add: q0 names)
    show "queue (callback (Caught example_denied ?denied) example_midway) ! 2 = \<lparr>fs_name = ''scan.pdf'', fs_status = Processing\<rparr>"
      using dn [of 2] by (simp del: callback.simps add: q0 names)
    show "queue (callback (Caught example_denied ?denied) example_midway) ! 3 = \<lparr>fs_name = ''broken.pdf'', fs_status = Uploading\<rparr>"
      using dn [of 3] by (simp del: callback.simps add: q0 names)
  qed
  have qg: "queue (callback (Caught example_garbled ?garbled) example_midway)
       = [\<lparr>fs_name = ''report.pdf'', fs_status = Uploading\<rparr>,
          \<lparr>fs_name = ''annual.pdf'', fs_status = Processing\<rparr>,
          \<lparr>fs_name = ''scan.pdf'', fs_status = Error\<rparr>,
          \<lparr>fs_name = ''broken.pdf'', fs_status = Uploading\<rparr>]"
  proof (rule list_of_four)
    show "length (queue (callback (Caught example_garbled ?garbled) example_midway)) = 4"
      using gl by (simp del: callback.simps add: q0)
    show "queue (callback (Caught example_garbled ?garbled) example_midway) ! 0 = \<lparr>fs_name = ''report.pdf'', fs_status = Uploading\<rparr>"
      using gn [of 0] by (simp del: callback.simps add: q0 names)
    show "queue (callback (Caught example_garbled ?garbled) example_midway) ! 1 = \<lparr>fs_name = ''annual.pdf'', fs_status = Processing\<rparr>"
      using gn [of 1] by (simp del: callback.simps add: q0 names)
    show "queue (callback (Caught example_garbled ?garbled) example_midway) ! 2 = \<lparr>fs_name = ''scan.pdf'', fs_status = Error\<rparr>"
      using gn [of 2] by (simp del: callback.simps add: q0 names)
    show "queue (callback (Caught example_garbled ?garbled) example_midway) ! 3 = \<lparr>fs_name = ''broken.pdf'', fs_status = Uploading\<rparr>"
      using gn [of 3] by (simp del: callback.simps add: q0 names)
  qed
  have qu: "queue (callback (OnError example_unreadable) example_midway)
       = [\<lparr>fs_name = ''report.pdf'', fs_status = Uploading\<rparr>,
          \<lparr>fs_name = ''annual.pdf'', fs_status = Processing\<rparr>,
          \<lparr>fs_name = ''scan.pdf'', fs_status = Processing\<rparr>,
          \<lparr>fs_name = ''broken.pdf'', fs_status = Error\<rparr>]"
  proof (rule list_of_four)
    show "length (queue (callback (OnError example_unreadable) example_midway)) = 4"
      using ul by (simp del: callback.simps add: q0)
    show "queue (callback (OnError example_unreadable) example_midway) ! 0 = \<lparr>fs_name = ''report.pdf'', fs_status = Uploading\<rparr>"
      using un [of 0] by (simp del: callback.simps add: q0 names)
    show "queue (callback (OnError example_unreadable) example_midway) ! 1 = \<lparr>fs_name = ''annual.pdf'', fs_status = Processing\<rparr>"
      using un [of 1] by (simp del: callback.simps add: q0 names)
    show "queue (callback (OnError example_unreadable) example_midway) ! 2 = \<lparr>fs_name = ''scan.pdf'', fs_status = Processing\<rparr>"
      using un [of 2] by (simp del: callback.simps add: q0 names)
    show "queue (callback (OnError example_unreadable) example_midway) ! 3 = \<lparr>fs_name = ''broken.pdf'', fs_status = Error\<rparr>"
      using un [of 3] by (simp del: callback.simps add: q0 names)
  qed
  from d auth g noauth u init qd qg qu show ?thesis by metis
qed

lemma phase_start:
  "phase f (fst (processSingleFile parse isFalsy toString f)) Uploading"
  by (auto simp: phase_def processSingleFile_def split: option.splits sum.splits)

lemma queue_callback:
  "queue (callback e s) =
     setFileStatus (file_name (eventFile e))
       (case e of OnLoad f u \<Rightarrow> Processing | Fulfilled f \<Rightarrow> Done | Caught f err \<Rightarrow> Error
        | OnError f \<Rightarrow> Error)
       (queue s)"
  by (cases e) (simp_all add: Let_def)

lemma phase_step:
  assumes "phase f ts st" "ts \<noteq> []"
  shows "eventFile (hd ts) = f
     \<and> forward st (case hd ts of OnLoad f u \<Rightarrow> Processing | Fulfilled f \<Rightarrow> Done
                     | Caught f err \<Rightarrow> Error | OnError f \<Rightarrow> Error)
     \<and> phase f (tl ts) (case hd ts of OnLoad f u \<Rightarrow> Processing | Fulfilled f \<Rightarrow> Done
                     | Caught f err \<Rightarrow> Error | OnError f \<Rightarrow> Error)"
  using assms by (auto simp: phase_def)

lemma setFileStatus_nth:
  assumes "distinct (map fs_name q)" "j < length q" "fs_name (q ! j) = n"
  shows "setFileStatus n st q = q[j := (q ! j)\<lparr>fs_status := st\<rparr>]"
proof (rule nth_equalityI)
  show "length (setFileStatus n st q) = length (q[j := (q ! j)\<lparr>fs_status := st\<rparr>])"
    by (simp add: setFileStatus_def)
next
  fix i assume "i < length (setFileStatus n st q)"
  then have i: "i < length q" by (simp add: setFileStatus_def)
  show "setFileStatus n st q ! i = q[j := (q ! j)\<lparr>fs_status := st\<rparr>] ! i"
  proof (cases "i = j")
    case True
    with assms i show ?thesis by (simp add: setFileStatus_def)
  next
    case False
    with assms i have "fs_name (q ! i) \<noteq> n"
      by (metis distinct_conv_nth length_map nth_map)
    with False i show ?thesis by (simp add: setFileStatus_def)
  qed
qed

lemma setFileStatus_names: "map fs_name (setFileStatus n st q) = map fs_name q"
  by (simp add: setFileStatus_def comp_def if_distrib cong: if_cong)


lemma tracked_step:
  assumes tr: "tracked n0 pdfs tss (queue s)" and i: "i < length tss" and ne: "tss ! i \<noteq> []"
  shows "tracked n0 pdfs (tss[i := tl (tss ! i)]) (queue (callback (hd (tss ! i)) s))
         \<and> moved_forward (queue s) (queue (callback (hd (tss ! i)) s))"
proof -
  let ?q = "queue s" and ?e = "hd (tss ! i)" and ?j = "n0 + i"
  let ?st = "case ?e of OnLoad f u \<Rightarrow> Processing | Fulfilled f \<Rightarrow> Done
             | Caught f err \<Rightarrow> Error | OnError f \<Rightarrow> Error"
  from tr have len: "length tss = length pdfs" "length ?q = n0 + length pdfs"
    and dist: "distinct (map fs_name ?q)"
    and ent: "\<And>m. m < length pdfs \<Longrightarrow> fs_name (?q ! (n0 + m)) = file_name (pdfs ! m)
                \<and> phase (pdfs ! m) (tss ! m) (fs_status (?q ! (n0 + m)))"
    by (simp_all add: tracked_def)
  from i len have ip: "i < length pdfs" and j: "?j < length ?q" by simp_all
  from ent [OF ip] have nm: "fs_name (?q ! ?j) = file_name (pdfs ! i)"
    and ph: "phase (pdfs ! i) (tss ! i) (fs_status (?q ! ?j))" by simp_all
  from phase_step [OF ph ne] have ef: "eventFile ?e = pdfs ! i"
    and fw: "forward (fs_status (?q ! ?j)) ?st"
    and ph': "phase (pdfs ! i) (tl (tss ! i)) ?st" by simp_all
  have q': "queue (callback ?e s) = ?q[?j := (?q ! ?j)\<lparr>fs_status := ?st\<rparr>]"
    unfolding queue_callback ef by (rule setFileStatus_nth [OF dist j nm])
  have names: "map fs_name (queue (callback ?e s)) = map fs_name ?q"
    unfolding queue_callback by (rule setFileStatus_names)
  have "tracked n0 pdfs (tss[i := tl (tss ! i)]) (queue (callback ?e s))"
    unfolding tracked_def
  proof (intro conjI allI impI)
    show "length (tss[i := tl (tss ! i)]) = length pdfs" using len by simp
    show "length (queue (callback ?e s)) = n0 + length pdfs" using len by (simp add: q')
    show "distinct (map fs_name (queue (callback ?e s)))" using dist names by simp
  next
    fix m assume m: "m < length pdfs"
    show "fs_name (queue (callback ?e s) ! (n0 + m)) = file_name (pdfs ! m)"
      using ent [OF m] m len j by (auto simp: q' nth_list_update)
    show "phase (pdfs ! m) (tss[i := tl (tss ! i)] ! m)
            (fs_status (queue (callback ?e s) ! (n0 + m)))"
    proof (cases "m = i")
      case True
      with ph' j i show ?thesis by (simp add: q')
    next
      case False
      with ent [OF m] m len j show ?thesis by (simp add: q' nth_list_update)
    qed
  qed
  moreover have "moved_forward ?q (queue (callback ?e s))"
    unfolding moved_forward_def using fw j by (auto simp: q' nth_list_update)
  ultimately show ?thesis ..
qed

lemma run_forward:
  "tracked n0 pdfs tss (queue s) \<Longrightarrow> interleaving tss es \<Longrightarrow> k < length es \<Longrightarrow>
   moved_forward (queue (fold callback (take k es) s))
                 (queue (fold callback (take (Suc k) es) s))"
proof (induction es arbitrary: tss s k)
  case Nil
  then show ?case by simp
next
  case (Cons e es)
  from Cons.prems(2) obtain i where i: "i < length tss" and ne: "tss ! i \<noteq> []"
    and hd: "hd (tss ! i) = e" and rest: "interleaving (tss[i := tl (tss ! i)]) es"
    unfolding interleaving_Cons_iff by blast
  from tracked_step [OF Cons.prems(1) i ne] hd
  have tr': "tracked n0 pdfs (tss[i := tl (tss ! i)]) (queue (callback e s))"
    and fw: "moved_forward (queue s) (queue (callback e s))" by simp_all
  show ?case
  proof (cases k)
    case 0
    with fw show ?thesis by simp
  next
    case (Suc k')
    with Cons.prems(3) have "k' < length es" by simp
    from Cons.IH [OF tr' rest this] Suc show ?thesis by simp
  qed
qed

lemma enqueue_tracked:
  assumes "distinct (map fs_name (queue s) @ map file_name pdfs)"
  shows "tracked (length (queue s)) pdfs
           (map (\<lambda>f. fst (processSingleFile parse isFalsy toString f)) pdfs)
           (queue (enqueue pdfs s))"
proof -
  have names: "map fs_name (queue (enqueue pdfs s)) = map fs_name (queue s) @ map file_name pdfs"
    by (simp add: enqueue_def Let_def comp_def)
  show ?thesis
    unfolding tracked_def
    using assms unfolding names [symmetric]
    by (simp add: enqueue_def Let_def nth_append phase_start)
qed

text \<open>
  What does hold of claim C5: as long as no two entries of the queue have the same name,
  every callback of a batch leaves each entry where it was or moves it one allowed step
  forward, whatever the order of the callbacks.
\<close>

lemma status_moves_forward_for_distinct_names:
  assumes "distinct (map fs_name (queue s)
                     @ map file_name (filter (\<lambda>f. file_type f = ''application/pdf'') files))"
    and "interleaving (batchCallbacks parse isFalsy toString files) schedule"
    and "k < length schedule"
  shows "moved_forward
           (queue (fold callback (take k schedule)
                     (enqueue (filter (\<lambda>f. file_type f = ''application/pdf'') files) s)))
           (queue (fold callback (take (Suc k) schedule)
                     (enqueue (filter (\<lambda>f. file_type f = ''application/pdf'') files) s)))"
  using run_forward [OF enqueue_tracked [OF assms(1)] assms(2) [unfolded batchCallbacks_def]
      assms(3)] .

text \<open>
  The message that the \<^verbatim>\<open>catch\<close> block sets does not outlast a batch in which every
  file fails: the handler, which closed over an \<^verbatim>\<open>error\<close> that was null, then sets its
  own message. The key stays marked as not configured.
\<close>

lemma authentication_message_replaced_when_all_fail:
  "error (handleFileUpload example_parse example_isFalsy example_toString
            (inOrder example_parse example_isFalsy example_toString [example_denied])
            [example_denied] initialState)
     = Some ''The documents could not be processed.''
   \<and> \<not> isKeyConfigured
        (handleFileUpload example_parse example_isFalsy example_toString
            (inOrder example_parse example_isFalsy example_toString [example_denied])
            [example_denied] initialState)"
  by (simp add: handleFileUpload_def inOrder_def batchCallbacks_def processSingleFile_def
      extractFinancialData_def example_denied_def initialState_def enqueue_def aggregate_def
      Let_def)

end
